theory Spec2Isabelle
  imports Main "HOL-Library.Sublist"
begin

chapter \<open>The resumable pipeline orchestrator: model\<close>

section \<open>Python strings\<close>

text \<open>
  A Python \<open>str\<close> is a sequence of code points and \<open>len\<close> counts them. The model
  writes a string as a \<^typ>\<open>string\<close> whose characters are the code points below 256, so
  \<^const>\<open>length\<close> is Python's \<open>len\<close>. Exceptions are values of \<open>py_error\<close>.
\<close>

datatype py_error =
    FileNotFoundError
  | ValueError
  | TypeError
  | QueueFull
  | Exception string

text \<open>
  \<open>str.isspace\<close>, which is also what \<open>str.strip()\<close> removes and what the regular
  expression \<open>\s\<close> matches on a \<open>str\<close> pattern: below 256 these are the code points
  9 to 13, 28 to 32, 133 and 160.
\<close>

definition isspace :: "char \<Rightarrow> bool" where
  "isspace c = (c \<in> set [CHR 0x09, CHR 0x0A, CHR 0x0B, CHR 0x0C, CHR 0x0D,
                           CHR 0x1C, CHR 0x1D, CHR 0x1E, CHR 0x1F, CHR 0x20,
                           CHR 0x85, CHR 0xA0])"

definition isdigit :: "char \<Rightarrow> bool" where
  "isdigit c = (c \<in> set ''0123456789'')"

definition isupper_ascii :: "char \<Rightarrow> bool" where
  "isupper_ascii c = (c \<in> set ''ABCDEFGHIJKLMNOPQRSTUVWXYZ'')"

definition islower_ascii :: "char \<Rightarrow> bool" where
  "islower_ascii c = (c \<in> set ''abcdefghijklmnopqrstuvwxyz'')"

definition isletter_ascii :: "char \<Rightarrow> bool" where
  "isletter_ascii c = (isupper_ascii c \<or> islower_ascii c)"

definition lstrip :: "string \<Rightarrow> string" where
  "lstrip s = dropWhile isspace s"

definition rstrip :: "string \<Rightarrow> string" where
  "rstrip s = rev (dropWhile isspace (rev s))"

definition strip :: "string \<Rightarrow> string" where
  "strip s = lstrip (rstrip s)"

definition startswith :: "string \<Rightarrow> string \<Rightarrow> bool" where
  "startswith s p = (take (length p) s = p)"

definition endswith :: "string \<Rightarrow> string \<Rightarrow> bool" where
  "endswith s p = (length p \<le> length s \<and> drop (length s - length p) s = p)"

text \<open>\<open>p in s\<close> on strings: \<open>p\<close> occurs in \<open>s\<close> as a contiguous substring.\<close>

fun contains :: "string \<Rightarrow> string \<Rightarrow> bool" where
  "contains [] p = (p = [])"
| "contains (c # cs) p = (startswith (c # cs) p \<or> contains cs p)"

text \<open>
  \<open>str.upper\<close> and \<open>str.lower\<close>. Only their effect on the ASCII letters is modelled:
  no other code point has an upper-case form that contains a letter of \<open>APPROVED\<close>, and
  no other code point has a lower-case form that contains a character of the patterns the
  code looks for in lower-cased error messages, so the prefix and substring tests of the
  source read the same on the model.
\<close>

definition upper_char :: "char \<Rightarrow> char" where
  "upper_char c = (if islower_ascii c then char_of (of_char c - (32::nat)) else c)"

definition lower_char :: "char \<Rightarrow> char" where
  "lower_char c = (if isupper_ascii c then char_of (of_char c + (32::nat)) else c)"

definition upper :: "string \<Rightarrow> string" where
  "upper s = map upper_char s"

definition lower :: "string \<Rightarrow> string" where
  "lower s = map lower_char s"

text \<open>\<open>not s or len(s.strip()) == 0\<close>: the test the pipeline uses for an empty unit.\<close>

definition blank :: "string \<Rightarrow> bool" where
  "blank s = (s = [] \<or> length (strip s) = 0)"

section \<open>Segmenter (\<open>src/chunker.py\<close>)\<close>

definition nl :: char where
  "nl = CHR 0x0A"

definition nn :: string where
  "nn = [nl, nl]"

text \<open>\<open>text.split("\n\n")\<close>: cut at the non-overlapping occurrences, left to right.\<close>

definition cons_first :: "char \<Rightarrow> string list \<Rightarrow> string list" where
  "cons_first c pss = (case pss of [] \<Rightarrow> [[c]] | p # ps \<Rightarrow> (c # p) # ps)"

fun split_nn :: "string \<Rightarrow> string list" where
  "split_nn (a # b # cs) =
     (if a = nl \<and> b = nl then [] # split_nn cs else cons_first a (split_nn (b # cs)))"
| "split_nn [a] = [[a]]"
| "split_nn [] = [[]]"

text \<open>\<open>"\n\n".join(current)\<close>.\<close>

fun join_nn :: "string list \<Rightarrow> string" where
  "join_nn [] = []"
| "join_nn [p] = p"
| "join_nn (p # q # ps) = p @ nn @ join_nn (q # ps)"

text \<open>
  \<open>re.split\<close> on a pattern that is a lookahead anchored by \<open>^\<close> under
  \<open>re.MULTILINE\<close>: the pattern matches the empty string at every position that starts
  a line (position 0, or just after a newline) and where the rest of the text satisfies
  the lookahead \<open>P\<close>; the text is cut at each such position. A match at position 0
  leaves an empty first piece. \<open>bol\<close> says whether the current position starts a line.
\<close>

fun re_split_heads :: "(string \<Rightarrow> bool) \<Rightarrow> bool \<Rightarrow> string \<Rightarrow> string list" where
  "re_split_heads P bol [] = [[]]"
| "re_split_heads P bol (c # cs) =
     (if bol \<and> P (c # cs)
      then [] # cons_first c (re_split_heads P (c = nl) cs)
      else cons_first c (re_split_heads P (c = nl) cs))"

definition chapter_keywords :: "string list" where
  "chapter_keywords = [''Chapter '', ''CHAPTER '', ''Unit '', ''UNIT '',
                       ''Module '', ''MODULE '', ''Part '', ''PART '']"

definition at_chapter_heading :: "string \<Rightarrow> bool" where
  "at_chapter_heading s = list_ex (startswith s) chapter_keywords"

text \<open>The lookahead \<open>\d+\.\s+\<close>: digits, a full stop, at least one whitespace.\<close>

definition at_numbered_section :: "string \<Rightarrow> bool" where
  "at_numbered_section s =
     (let r = dropWhile isdigit s in
      takeWhile isdigit s \<noteq> [] \<and>
      (case r of
         d # w # _ \<Rightarrow> d = CHR ''.'' \<and> isspace w
       | _ \<Rightarrow> False))"

definition split_by_chapter :: "string \<Rightarrow> string list" where
  "split_by_chapter text =
     map strip (filter (\<lambda>p. strip p \<noteq> []) (re_split_heads at_chapter_heading True text))"

definition split_by_numbered_sections :: "string \<Rightarrow> string list" where
  "split_by_numbered_sections text =
     map strip (filter (\<lambda>p. strip p \<noteq> []) (re_split_heads at_numbered_section True text))"

text \<open>
  \<open>re.split(r"(?<=[.!?])\s+(?=[A-ZA-Za-z])", para)\<close>: a separator is a maximal run of
  whitespace that directly follows one of \<open>.\<close>, \<open>!\<close>, \<open>?\<close> and is directly followed
  by an ASCII letter; the separators are dropped. \<open>prev\<close> is the character before the
  current position (\<open>None\<close> at the start of the paragraph).
\<close>

definition sentence_end :: "char option \<Rightarrow> bool" where
  "sentence_end prev = (prev = Some (CHR ''.'') \<or> prev = Some (CHR ''!'') \<or> prev = Some (CHR ''?''))"

definition letter_ahead :: "string \<Rightarrow> bool" where
  "letter_ahead s = (case dropWhile isspace s of [] \<Rightarrow> False | c # _ \<Rightarrow> isletter_ascii c)"

function split_sentences :: "char option \<Rightarrow> string \<Rightarrow> string list" where
  "split_sentences prev [] = [[]]"
| "split_sentences prev (c # cs) =
     (if sentence_end prev \<and> isspace c \<and> letter_ahead cs
      then [] # split_sentences (Some (last (c # takeWhile isspace cs))) (dropWhile isspace cs)
      else cons_first c (split_sentences (Some c) cs))"
  by pat_completeness auto
termination
  by (relation "measure (\<lambda>(prev, s). length s)")
     (auto simp: le_imp_less_Suc length_dropWhile_le)

text \<open>
  \<open>for i in range(0, len(sentence), max_chars): chunks.append(sentence[i : i + max_chars])\<close>
  for a positive step \<open>n\<close>.
\<close>

function offset_pieces :: "nat \<Rightarrow> string \<Rightarrow> string list" where
  "offset_pieces n s = (if n = 0 \<or> s = [] then [] else take n s # offset_pieces n (drop n s))"
  by pat_completeness auto
termination
  by (relation "measure (\<lambda>(n, s). length s)") auto

text \<open>
  The sentence loop of \<open>_split_by_length\<close> (lines 69 to 82): the state is the list of
  chunks and \<open>para_current\<close>. \<open>range\<close> with step 0 raises \<open>ValueError\<close>; with a
  negative step it is empty.
\<close>

fun pack_sentences ::
  "int \<Rightarrow> string list \<Rightarrow> string list \<times> string \<Rightarrow> py_error + (string list \<times> string)" where
  "pack_sentences m [] st = Inr st"
| "pack_sentences m (sentence # rest) (chunks, para_current) =
     (if int (length para_current) + int (length sentence) + 1 \<le> m
      then pack_sentences m rest (chunks, para_current @ strip (sentence @ '' ''))
      else
        (let chunks1 = (if para_current \<noteq> [] then chunks @ [strip para_current] else chunks) in
         if int (length sentence) > m
         then (if m = 0 then Inl ValueError
               else pack_sentences m rest (chunks1 @ offset_pieces (nat m) sentence, []))
         else pack_sentences m rest (chunks1, sentence @ '' '')))"

text \<open>
  The paragraph loop (lines 48 to 88): the state is \<open>chunks\<close>, \<open>current\<close> and
  \<open>current_len\<close>.
\<close>

fun pack_paragraphs ::
  "int \<Rightarrow> string list \<Rightarrow> string list \<times> string list \<times> int \<Rightarrow>
   py_error + (string list \<times> string list \<times> int)" where
  "pack_paragraphs m [] st = Inr st"
| "pack_paragraphs m (para # rest) (chunks, current, current_len) =
     (if current_len + int (length para) \<le> m
      then pack_paragraphs m rest (chunks, current @ [para], current_len + int (length para) + 2)
      else
        (let chunks1 = (if current \<noteq> [] then chunks @ [join_nn current] else chunks);
             current1 = (if current \<noteq> [] then [] else current);
             current_len1 = (if current \<noteq> [] then 0 else current_len) in
         if int (length para) > m
         then (case pack_sentences m (split_sentences None para) (chunks1, []) of
                 Inl e \<Rightarrow> Inl e
               | Inr (chunks2, para_current) \<Rightarrow>
                   pack_paragraphs m rest
                     ((if para_current \<noteq> [] then chunks2 @ [strip para_current] else chunks2),
                      current1, current_len1))
         else pack_paragraphs m rest (chunks1, [para], int (length para) + 2)))"

definition split_by_length :: "int \<Rightarrow> string \<Rightarrow> py_error + string list" where
  "split_by_length max_chars text =
     (case pack_paragraphs max_chars (split_nn text) ([], [], 0) of
        Inl e \<Rightarrow> Inl e
      | Inr (chunks, current, current_len) \<Rightarrow>
          Inr (if current \<noteq> [] then chunks @ [join_nn current] else chunks))"

text \<open>Strategy C of \<open>chunk_manuscript\<close> (lines 135 to 141).\<close>

fun hard_split_all :: "int \<Rightarrow> string list \<Rightarrow> py_error + string list" where
  "hard_split_all m [] = Inr []"
| "hard_split_all m (chunk # rest) =
     (if int (length chunk) > m
      then (case split_by_length m chunk of
              Inl e \<Rightarrow> Inl e
            | Inr sub_chunks \<Rightarrow>
                (case hard_split_all m rest of
                   Inl e \<Rightarrow> Inl e
                 | Inr more \<Rightarrow> Inr (sub_chunks @ more)))
      else (case hard_split_all m rest of
              Inl e \<Rightarrow> Inl e
            | Inr more \<Rightarrow> Inr (chunk # more)))"

definition segment_text :: "int \<Rightarrow> string \<Rightarrow> py_error + string list" where
  "segment_text max_chunk_chars text =
     (let chunks = split_by_chapter text;
          chunks = (if length chunks \<le> 1 then split_by_numbered_sections text else chunks);
          chunks = (if length chunks \<le> 1 then [text] else chunks)
      in hard_split_all max_chunk_chars chunks)"

text \<open>
  \<open>chunk_manuscript\<close>: the file is \<open>None\<close> when it does not exist. \<open>MAX_CHUNK_CHARS\<close>
  is read from the environment (default 800) and is a parameter here.
\<close>

definition chunk_manuscript :: "int \<Rightarrow> string option \<Rightarrow> py_error + string list" where
  "chunk_manuscript max_chunk_chars file =
     (case file of
        None \<Rightarrow> Inl FileNotFoundError
      | Some text \<Rightarrow> segment_text max_chunk_chars text)"

section \<open>Phase checkpoint and resume (\<open>main.py\<close>)\<close>

text \<open>
  The checkpoint file \<open>pipeline_state.json\<close>: missing, not valid JSON, or an object
  that may hold \<open>completed_phase\<close>. \<open>load_state\<close> answers \<open>completed_phase = 0\<close> for
  the first two, and \<open>state.get("completed_phase", 0)\<close> for an object without the key.
\<close>

datatype state_file = Missing | Corrupt | Saved "int option"

definition load_completed_phase :: "state_file \<Rightarrow> int" where
  "load_completed_phase f =
     (case f of Missing \<Rightarrow> 0 | Corrupt \<Rightarrow> 0 | Saved None \<Rightarrow> 0 | Saved (Some k) \<Rightarrow> k)"

record cli_args =
  pdf_input :: "string option"
  pdf_input_exists :: bool
  arg_resume :: bool
  arg_phase :: "int option"
  arg_is_resume :: bool

text \<open>
  What a run does, as the list of the parts of \<open>main\<close> it enters: the purge of a fresh
  run and the bodies of the four phases. \<open>completes p\<close> says that the body of phase
  \<open>p\<close> runs to its end (it neither returns early, as on a missing manuscript or API
  key, nor raises); a body that does not complete ends the run.
\<close>

datatype step = Purge | PhaseBody int

definition main_run :: "(int \<Rightarrow> bool) \<Rightarrow> string option \<Rightarrow> int \<Rightarrow> bool \<Rightarrow> step list" where
  "main_run completes pdf_path start_phase is_resume =
     (let t0 = (if start_phase = 1 \<and> \<not> is_resume then [Purge] else []) in
      if start_phase \<le> 1 \<and> (pdf_path = None \<or> pdf_path = Some [] \<or> \<not> completes 1)
      then t0 @ [PhaseBody 1]
      else
        (let t1 = t0 @ (if start_phase \<le> 1 then [PhaseBody 1] else []) in
         if start_phase \<le> 2 \<and> \<not> completes 2 then t1 @ [PhaseBody 2]
         else
           (let t2 = t1 @ (if start_phase \<le> 2 then [PhaseBody 2] else []) in
            if start_phase \<le> 3 \<and> \<not> completes 3 then t2 @ [PhaseBody 3]
            else t2 @ (if start_phase \<le> 3 then [PhaseBody 3] else []) @ [PhaseBody 4])))"

datatype cli_outcome = AlreadyComplete | FileNotFound | Ran int "step list"

text \<open>The entry point (lines 826 to 849).\<close>

definition cli_main :: "(int \<Rightarrow> bool) \<Rightarrow> cli_args \<Rightarrow> state_file \<Rightarrow> cli_outcome" where
  "cli_main completes args sf =
     (let start_phase =
        (if arg_resume args then load_completed_phase sf + 1
         else (case arg_phase args of
                 None \<Rightarrow> 1
               | Some p \<Rightarrow> if p \<noteq> 0 then p else 1))
      in
      if arg_resume args \<and> start_phase > 4 then AlreadyComplete
      else if start_phase \<le> 1 \<and>
              (pdf_input args = None \<or> pdf_input args = Some [] \<or> \<not> pdf_input_exists args)
      then FileNotFound
      else Ran start_phase
             (main_run completes (pdf_input args) start_phase (arg_is_resume args \<or> arg_resume args)))"

text \<open>The steps an outcome performed: none unless the run reached \<open>main\<close>.\<close>

definition steps_of :: "cli_outcome \<Rightarrow> step list" where
  "steps_of out = (case out of Ran sp t \<Rightarrow> t | _ \<Rightarrow> [])"

section \<open>The purge of a fresh run (\<open>main.py\<close>, lines 128 to 159)\<close>

text \<open>
  A directory is the list of its entries; a path is the list of its components, already
  resolved. \<open>node_exists n p\<close>: the path \<open>p\<close>, relative to the node \<open>n\<close>, exists.
\<close>

datatype fsnode = File | Dir "(string \<times> fsnode) list"

type_synonym path = "string list"

fun node_exists :: "fsnode \<Rightarrow> path \<Rightarrow> bool" where
  "node_exists n [] = True"
| "node_exists File (x # xs) = False"
| "node_exists (Dir es) (x # xs) =
     (case map_of es x of None \<Rightarrow> False | Some n \<Rightarrow> node_exists n xs)"

text \<open>
  \<open>clear_with_exceptions(dir_path, exceptions)\<close>: every direct entry of the directory
  whose resolved path is not one of the exceptions is removed, a file by \<open>unlink\<close>, a
  directory by \<open>shutil.rmtree\<close>, so with everything below it. \<open>locked name\<close> says
  that removing the entry raises; the source prints the error and goes on. A directory
  that does not exist is left alone.
\<close>

definition clear_with_exceptions ::
  "(string \<Rightarrow> bool) \<Rightarrow> path \<Rightarrow> (string \<times> fsnode) list option \<Rightarrow> path option list \<Rightarrow>
   (string \<times> fsnode) list option" where
  "clear_with_exceptions locked dir_path dir exceptions =
     (case dir of
        None \<Rightarrow> None
      | Some entries \<Rightarrow>
          (let abs_exceptions = List.map_filter (\<lambda>e. e) exceptions in
           Some (filter (\<lambda>(name, node). dir_path @ [name] \<in> set abs_exceptions \<or> locked name)
                   entries)))"

text \<open>
  The purge as \<open>main\<close> calls it: the preserved paths are the input PDF (when one was
  given) and \<open>jobs.json\<close> in the output directory.
\<close>

definition purge_output_dir ::
  "(string \<Rightarrow> bool) \<Rightarrow> path \<Rightarrow> path option \<Rightarrow> (string \<times> fsnode) list option \<Rightarrow>
   (string \<times> fsnode) list option" where
  "purge_output_dir locked output_dir pdf_path dir =
     clear_with_exceptions locked output_dir dir [pdf_path, Some (output_dir @ [''jobs.json''])]"

definition path_exists_in :: "(string \<times> fsnode) list option \<Rightarrow> path \<Rightarrow> bool" where
  "path_exists_in dir rel = (case dir of None \<Rightarrow> False | Some entries \<Rightarrow> node_exists (Dir entries) rel)"

section \<open>Event broker (\<open>server/sse_manager.py\<close>)\<close>

record 'e squeue =
  items :: "'e list"
  maxsize :: int

text \<open>
  \<open>asyncio.Queue.put_nowait\<close>: raises \<open>QueueFull\<close> when the queue is full, else
  appends the item and returns \<open>None\<close>.
\<close>

definition full :: "'e squeue \<Rightarrow> bool" where
  "full q = (if maxsize q \<le> 0 then False else int (length (items q)) \<ge> maxsize q)"

definition put_nowait :: "'e squeue \<Rightarrow> 'e \<Rightarrow> py_error + 'e squeue" where
  "put_nowait q event = (if full q then Inl QueueFull else Inr (q\<lparr>items := items q @ [event]\<rparr>))"

text \<open>
  The loop of \<open>publish\<close> over the job's queues:
  \<^verbatim>\<open>
  for q in list(self._queues.get(job_id, [])):
      try:
          await q.put_nowait(event)
      except asyncio.QueueFull:
          pass
  \<close>
  \<open>put_nowait\<close> is an ordinary method. When the queue is full it raises
  \<open>QueueFull\<close>, which the handler drops. When it is not, the item is enqueued and the
  call returns \<open>None\<close>; \<open>await None\<close> then raises \<open>TypeError\<close>, which the handler
  does not catch, so it leaves \<open>publish\<close> and the remaining queues are not visited.
  The result is the exception that left the loop, if any, and the queues afterwards.
\<close>

fun publish_loop :: "'e \<Rightarrow> 'e squeue list \<Rightarrow> py_error option \<times> 'e squeue list" where
  "publish_loop event [] = (None, [])"
| "publish_loop event (q # qs) =
     (case put_nowait q event of
        Inl err \<Rightarrow> (case publish_loop event qs of (r, qs') \<Rightarrow> (r, q # qs'))
      | Inr q' \<Rightarrow> (Some TypeError, q' # qs))"

text \<open>The broker maps a job id to its subscribers' queues (a \<open>defaultdict(list)\<close>).\<close>

definition publish ::
  "(string \<Rightarrow> 'e squeue list) \<Rightarrow> string \<Rightarrow> 'e \<Rightarrow> py_error option \<times> (string \<Rightarrow> 'e squeue list)" where
  "publish queues job_id event =
     (case publish_loop event (queues job_id) of
        (r, qs') \<Rightarrow> (r, queues(job_id := qs')))"

text \<open>\<open>subscribe\<close> up to its first \<open>await\<close>: a new queue of capacity 100 is appended.\<close>

definition subscribe :: "(string \<Rightarrow> 'e squeue list) \<Rightarrow> string \<Rightarrow> (string \<Rightarrow> 'e squeue list)" where
  "subscribe queues job_id = queues(job_id := queues job_id @ [\<lparr>items = [], maxsize = 100\<rparr>])"

section \<open>Dead letter queue (\<open>src/dlq.py\<close>)\<close>

text \<open>
  The table \<open>failed_chunks\<close>, with \<open>id\<close> its primary key: a list of rows with
  distinct ids, in insertion order.
\<close>

record dlq_row =
  row_id :: string
  row_phase :: int
  row_chunk_text :: string
  row_error_msg :: string
  row_retry_count :: int
  row_status :: string
  row_created_at :: string
  row_updated_at :: string

type_synonym dlq = "dlq_row list"

text \<open>\<open>INSERT OR REPLACE\<close>: a row with the same id is deleted, the new row is added.\<close>

definition push :: "string \<Rightarrow> string \<Rightarrow> string \<Rightarrow> string \<Rightarrow> int \<Rightarrow> dlq \<Rightarrow> dlq" where
  "push now chunk_id chunk_txt error_msg phase db =
     filter (\<lambda>r. row_id r \<noteq> chunk_id) db @
     [\<lparr>row_id = chunk_id, row_phase = phase, row_chunk_text = chunk_txt,
       row_error_msg = take 500 error_msg, row_retry_count = 0, row_status = ''pending'',
       row_created_at = now, row_updated_at = now\<rparr>]"

record dlq_item =
  item_id :: string
  item_phase :: int
  item_text :: string
  item_error :: string
  item_retries :: int

definition get_all :: "string \<Rightarrow> dlq \<Rightarrow> dlq_item list" where
  "get_all status db =
     map (\<lambda>r. \<lparr>item_id = row_id r, item_phase = row_phase r, item_text = row_chunk_text r,
                item_error = row_error_msg r, item_retries = row_retry_count r\<rparr>)
         (filter (\<lambda>r. row_status r = status) db)"

definition mark_resolved :: "string \<Rightarrow> string \<Rightarrow> dlq \<Rightarrow> dlq" where
  "mark_resolved now chunk_id db =
     map (\<lambda>r. if row_id r = chunk_id
               then r\<lparr>row_status := ''resolved'', row_updated_at := now\<rparr> else r) db"

text \<open>
  \<open>retry_all\<close>: each pending item is handed to the processor up to \<open>max_retries\<close>
  times and marked resolved at the first success. \<open>processor text attempt\<close> says
  whether that call returns a truthy result without an \<open>error\<close> key (a call that
  raises, or returns anything else, is a failure).
\<close>

fun retry_item :: "(string \<Rightarrow> nat \<Rightarrow> bool) \<Rightarrow> string \<Rightarrow> nat \<Rightarrow> nat \<Rightarrow> bool" where
  "retry_item processor text attempt 0 = False"
| "retry_item processor text attempt (Suc left) =
     (if processor text attempt then True else retry_item processor text (Suc attempt) left)"

fun retry_items ::
  "string \<Rightarrow> (string \<Rightarrow> nat \<Rightarrow> bool) \<Rightarrow> nat \<Rightarrow> dlq_item list \<Rightarrow> dlq \<Rightarrow> nat \<times> dlq" where
  "retry_items now processor max_retries [] db = (0, db)"
| "retry_items now processor max_retries (item # rest) db =
     (if retry_item processor (item_text item) 0 max_retries
      then (case retry_items now processor max_retries rest (mark_resolved now (item_id item) db) of
              (recovered, db') \<Rightarrow> (Suc recovered, db'))
      else retry_items now processor max_retries rest db)"

definition retry_all :: "string \<Rightarrow> (string \<Rightarrow> nat \<Rightarrow> bool) \<Rightarrow> nat \<Rightarrow> dlq \<Rightarrow> nat \<times> dlq" where
  "retry_all now processor max_retries db =
     retry_items now processor max_retries (get_all ''pending'' db) db"

text \<open>The operations that change the store, and a run of them.\<close>

datatype dlq_op =
    Push string string string string int
  | MarkResolved string string
  | RetryAll string "string \<Rightarrow> nat \<Rightarrow> bool" nat

fun apply_op :: "dlq_op \<Rightarrow> dlq \<Rightarrow> dlq" where
  "apply_op (Push now chunk_id chunk_txt error_msg phase) db =
     push now chunk_id chunk_txt error_msg phase db"
| "apply_op (MarkResolved now chunk_id) db = mark_resolved now chunk_id db"
| "apply_op (RetryAll now processor max_retries) db = snd (retry_all now processor max_retries db)"

fun run_ops :: "dlq_op list \<Rightarrow> dlq \<Rightarrow> dlq" where
  "run_ops [] db = db"
| "run_ops (op # ops) db = run_ops ops (apply_op op db)"

fun pushes :: "string \<Rightarrow> dlq_op \<Rightarrow> bool" where
  "pushes chunk_id (Push now i chunk_txt error_msg phase) = (i = chunk_id)"
| "pushes chunk_id (MarkResolved now i) = False"
| "pushes chunk_id (RetryAll now processor max_retries) = False"

definition status_of :: "dlq \<Rightarrow> string \<Rightarrow> string option" where
  "status_of db chunk_id = map_option row_status (find (\<lambda>r. row_id r = chunk_id) db)"

section \<open>Unit state machine (\<open>src/agents.py\<close>, \<open>src/graph.py\<close>)\<close>

record BookState =
  current_chunk :: string
  analysis :: string
  expanded_chunk :: string
  feedback :: string
  revision_count :: int
  target_chars :: int

text \<open>The environment variables the nodes read.\<close>

record env =
  DEFAULT_MODEL :: "string option"
  LLM_PROVIDER :: "string option"
  MATH_MODEL :: "string option"
  FLASH_MODEL :: "string option"
  GOOGLE_API_KEY :: "string option"
  GEMINI_API_KEY :: "string option"
  TARGET_PAGES :: int

definition getenv :: "string option \<Rightarrow> string \<Rightarrow> string" where
  "getenv v d = (case v of None \<Rightarrow> d | Some x \<Rightarrow> x)"

definition truthy :: "string option \<Rightarrow> bool" where
  "truthy v = (case v of None \<Rightarrow> False | Some x \<Rightarrow> x \<noteq> [])"

text \<open>\<open>os.getenv("GOOGLE_API_KEY") or os.getenv("GEMINI_API_KEY")\<close> is truthy.\<close>

definition api_key_present :: "env \<Rightarrow> bool" where
  "api_key_present E = (truthy (GOOGLE_API_KEY E) \<or> truthy (GEMINI_API_KEY E))"

definition DEFAULT_FALLBACK_MODEL :: string where
  "DEFAULT_FALLBACK_MODEL = ''gemini/gemini-2.0-flash''"

definition get_model :: "env \<Rightarrow> string" where
  "get_model E =
     (let model = getenv (DEFAULT_MODEL E) DEFAULT_FALLBACK_MODEL in
      if model = [] then DEFAULT_FALLBACK_MODEL else model)"

definition bs :: char where
  "bs = CHR 0x5C"

definition MATH_KEYWORDS :: "string list" where
  "MATH_KEYWORDS =
     [bs # ''frac'', bs # ''int'', bs # ''sum'', bs # ''partial'', ''differential'',
      ''derivation'', ''equation'', ''thermodynamic'', ''calculus'', ''matrix'',
      ''eigenvalue'', ''Laplace'', ''Fourier'', bs # ''nabla'', bs # ''Delta'']"

definition select_model :: "env \<Rightarrow> string \<Rightarrow> string" where
  "select_model E chunk =
     (let provider = lower (getenv (LLM_PROVIDER E) ''gemini'') in
      if provider = ''ollama'' then ''ollama/llama3''
      else
        (let base = getenv (DEFAULT_MODEL E) DEFAULT_FALLBACK_MODEL;
             pro_model = getenv (MATH_MODEL E) base;
             flash_model = getenv (FLASH_MODEL E) base in
         if chunk \<noteq> [] \<and> list_ex (contains chunk) MATH_KEYWORDS then pro_model
         else flash_model))"

definition is_gemini :: "string \<Rightarrow> bool" where
  "is_gemini model = startswith model ''gemini/''"

text \<open>
  The generation service. A call of \<open>litellm.acompletion\<close> raises
  \<open>APIConnectionError\<close>, raises another exception (with its message), or returns a
  response: one without usable \<open>choices\<close>, one whose
  \<open>choices[0].message.content\<close> raises \<open>AttributeError\<close>, \<open>IndexError\<close> or
  \<open>KeyError\<close>, or one with a content (\<open>None\<close> or a string). The service is the
  sequence of its replies: \<open>service k\<close> answers the call number \<open>k\<close>, and every node
  takes the number of calls made so far and returns the number afterwards.
\<close>

datatype response = NoChoices | BadShape | Content "string option"

datatype llm_reply = APIConnectionError | OtherError string | Response response

type_synonym llm = "nat \<Rightarrow> llm_reply"

text \<open>
  The test the handlers apply to \<open>str(other_err).lower()\<close>: a network error is slept
  on and retried, anything else is raised again.
\<close>

definition retryable :: "string \<Rightarrow> bool" where
  "retryable msg =
     (contains (lower msg) ''11001'' \<or> contains (lower msg) ''getaddrinfo'' \<or>
      contains (lower msg) ''time'')"

subsection \<open>\<open>analyst_node\<close>\<close>

text \<open>
  The call of the analyst (lines 225 to 258) passes
  \<open>api_base=os.getenv("OLLAMA_API_BASE") if provider == "ollama" else None\<close>, and
  \<open>provider\<close> is bound neither in \<open>analyst_node\<close> nor in the module (it is a local
  of \<open>_select_model\<close>). Python evaluates the arguments before the call, so evaluating
  them raises \<open>NameError\<close> and the service is never called. The handler
  \<open>except Exception as other_err\<close> receives it, its message is not a network
  error, so it is raised again and the outer handler returns the API-error plan.
\<close>

definition provider_name_error :: string where
  "provider_name_error = ''name '' @ [CHR 0x27] @ ''provider'' @ [CHR 0x27] @ '' is not defined''"

fun analyst_attempts :: "nat \<Rightarrow> bool \<Rightarrow> string" where
  "analyst_attempts 0 key_missing =
     ''Error: Analyst failed to generate plan due to repeated network errors.''"
| "analyst_attempts (Suc k) key_missing =
     (if key_missing then ''Error: Analyst failed - missing API key.''
      else if retryable provider_name_error then analyst_attempts k key_missing
      else ''Error: Analyst failed to generate plan due to API error.'')"

definition analyst_node :: "env \<Rightarrow> BookState \<Rightarrow> string" where
  "analyst_node E s =
     (let chunk = current_chunk s in
      if blank chunk then ''Error: Analyst received empty chunk.''
      else
        (let model = select_model E chunk in
         analyst_attempts 5 (is_gemini model \<and> \<not> api_key_present E)))"

subsection \<open>\<open>drafter_node\<close>\<close>

text \<open>
  The retry loop of the drafter (lines 433 to 517). In the source the lines that read
  the response and set \<open>expanded\<close> (492 to 500) stand inside the handler
  \<open>except Exception as other_err\<close>, after an \<open>if\<close> whose branches end in
  \<open>continue\<close> and \<open>raise\<close>: they are never reached. The second
  \<open>except Exception\<close> of the same \<open>try\<close> is shadowed by the first. So a call that
  returns leaves \<open>expanded\<close> as \<open>None\<close> and the loop goes on to the next attempt; a
  network error is retried; any other exception leaves the node. The result is the
  message of the exception that left the node, if any.
\<close>

fun drafter_attempts :: "nat \<Rightarrow> llm \<Rightarrow> nat \<Rightarrow> string option \<times> nat" where
  "drafter_attempts 0 service n = (None, n)"
| "drafter_attempts (Suc k) service n =
     (case service n of
        Response r \<Rightarrow> drafter_attempts k service (Suc n)
      | APIConnectionError \<Rightarrow> drafter_attempts k service (Suc n)
      | OtherError msg \<Rightarrow>
          if retryable msg then drafter_attempts k service (Suc n) else (Some msg, Suc n))"

definition drafter_node :: "env \<Rightarrow> llm \<Rightarrow> nat \<Rightarrow> BookState \<Rightarrow> (py_error + BookState) \<times> nat" where
  "drafter_node E service n s =
     (let chunk = current_chunk s;
          unchanged = s\<lparr>expanded_chunk := chunk, revision_count := revision_count s + 1\<rparr> in
      if blank chunk then (Inr unchanged, n)
      else if analysis s \<noteq> [] \<and> startswith (analysis s) ''Error: Analyst'' then (Inr unchanged, n)
      else if is_gemini (get_model E) \<and> \<not> api_key_present E then (Inr unchanged, n)
      else
        (case drafter_attempts 3 service n of
           (Some msg, n') \<Rightarrow> (Inl (Exception msg), n')
         | (None, n') \<Rightarrow> (Inr unchanged, n')))"

subsection \<open>\<open>critic_node\<close>\<close>

text \<open>\<open>f"{n:,}"\<close>: decimal digits in groups of three.\<close>

function dec_digits :: "nat \<Rightarrow> string" where
  "dec_digits n =
     (if n < 10 then [char_of (48 + n)]
      else dec_digits (n div 10) @ [char_of (48 + n mod 10)])"
  by pat_completeness auto
termination
  by (relation "measure (\<lambda>n. n)") auto

fun group3 :: "string \<Rightarrow> string" where
  "group3 (a # b # c # d # r) = a # b # c # CHR '','' # group3 (d # r)"
| "group3 r = r"

definition fmt_thousands :: "int \<Rightarrow> string" where
  "fmt_thousands i =
     (if i < 0 then CHR ''-'' # rev (group3 (rev (dec_digits (nat (- i)))))
      else rev (group3 (rev (dec_digits (nat i)))))"

text \<open>The dash of the source's message is U+2014; one character stands for it.\<close>

definition em_dash :: char where
  "em_dash = CHR 0x97"

definition fence :: string where
  "fence = [CHR 0x60, CHR 0x60, CHR 0x60]"

definition low_effort_rejection :: "nat \<Rightarrow> int \<Rightarrow> string" where
  "low_effort_rejection len target =
     ''LOW EFFORT: The expanded text is only '' @ fmt_thousands (int len) @
     '' characters long, which is below the strict requirement of '' @ fmt_thousands target @
     '' characters. You MUST produce a much longer expansion. '' @
     ''Go deeper: add more derivations, more mirror problems with '' @
     ''randomized values, more [NEW_DIAGRAM: ...] tags. '' @
     ''Do not summarize '' @ [em_dash] @ '' DERIVE and EXPAND.''"

definition truncation_rejection :: string where
  "truncation_rejection =
     ''TRUNCATION DETECTED: The text abruptly cuts off at the very end. '' @
     ''You likely hit the maximum output token limit. '' @
     ''You MUST rewrite the ending to ensure it finishes its thought cleanly with proper '' @
     ''punctuation or closing tags like '' @ [bs] @ ''end{equation}.''"

definition artifact_rejection :: string where
  "artifact_rejection =
     ''ARTIFACT DETECTED: Remove '' @ fence @ ''markdown code fences from the output.''"

definition clean_ends :: "string list" where
  "clean_ends = [''.'', ''!'', ''?'', [CHR 0x22], [CHR 0x27], fence,
                 ''}'', '']'', '')'', ''_'', ''*'']"

text \<open>
  The local checks of the critic (lines 583 to 626), in the source's order: \<open>Some\<close> of
  the feedback they return, or \<open>None\<close> when the review goes on to the remote critic.
\<close>

definition local_review :: "BookState \<Rightarrow> string option" where
  "local_review s =
     (let expanded = expanded_chunk s; original = current_chunk s in
      if blank expanded then Some ''APPROVED''
      else if blank original then Some ''APPROVED''
      else if int (length expanded) < target_chars s
      then Some (low_effort_rejection (length expanded) (target_chars s))
      else if \<not> list_ex (endswith (strip expanded)) clean_ends then Some truncation_rejection
      else if contains expanded (fence @ ''markdown'') \<or> startswith (strip expanded) fence
      then Some artifact_rejection
      else None)"

text \<open>
  The retry loop of the critic (lines 633 to 681): up to five calls. A returned
  response ends the loop; a network error is slept on and retried; any other exception
  is raised again and caught by the outer handler; five failed attempts reach the
  \<open>else\<close> of the loop.
\<close>

datatype call_outcome = Got response | Exhausted | Raised string

fun critic_attempts :: "nat \<Rightarrow> llm \<Rightarrow> nat \<Rightarrow> call_outcome \<times> nat" where
  "critic_attempts 0 service n = (Exhausted, n)"
| "critic_attempts (Suc k) service n =
     (case service n of
        Response r \<Rightarrow> (Got r, Suc n)
      | APIConnectionError \<Rightarrow> critic_attempts k service (Suc n)
      | OtherError msg \<Rightarrow>
          if retryable msg then critic_attempts k service (Suc n) else (Raised msg, Suc n))"

text \<open>The remote part of the critic (lines 628 to 717): the feedback it returns.\<close>

definition remote_review :: "env \<Rightarrow> llm \<Rightarrow> nat \<Rightarrow> string \<times> nat" where
  "remote_review E service n =
     (if is_gemini (get_model E) \<and> \<not> api_key_present E then (''APPROVED'', n)
      else
        (case critic_attempts 5 service n of
           (Exhausted, n') \<Rightarrow> (''APPROVED'', n')
         | (Raised msg, n') \<Rightarrow> (''APPROVED'', n')
         | (Got NoChoices, n') \<Rightarrow> (''APPROVED'', n')
         | (Got BadShape, n') \<Rightarrow> (''APPROVED'', n')
         | (Got (Content None), n') \<Rightarrow> (''APPROVED'', n')
         | (Got (Content (Some content)), n') \<Rightarrow>
             (if content = [] then ''APPROVED'' else strip content, n')))"

definition critic_node :: "env \<Rightarrow> llm \<Rightarrow> nat \<Rightarrow> BookState \<Rightarrow> string \<times> nat" where
  "critic_node E service n s =
     (case local_review s of
        Some fb \<Rightarrow> (fb, n)
      | None \<Rightarrow> remote_review E service n)"

subsection \<open>Routing and the graph (\<open>src/graph.py\<close>)\<close>

definition MAX_REVISIONS :: int where
  "MAX_REVISIONS = 3"

datatype route = END | To_drafter

definition should_revise :: "BookState \<Rightarrow> route" where
  "should_revise s =
     (if startswith (upper (feedback s)) ''APPROVED'' then END
      else if revision_count s \<ge> MAX_REVISIONS then END
      else To_drafter)"

text \<open>
  The graph: \<open>analyst\<close>, then \<open>drafter\<close> and \<open>critic\<close> in turn until the router
  answers \<open>END\<close>. Beside the final state (or the exception that left the drafter) the
  model returns what the nodes produced, in order: every draft and every review.
\<close>

datatype graph_event = Drafted string | Reviewed string

function revise_loop ::
  "env \<Rightarrow> llm \<Rightarrow> nat \<Rightarrow> BookState \<Rightarrow> (py_error + BookState) \<times> graph_event list \<times> nat" where
  "revise_loop E service n s =
     (case drafter_node E service n s of
        (Inl e, n1) \<Rightarrow> (Inl e, [], n1)
      | (Inr s1, n1) \<Rightarrow>
          (case critic_node E service n1 s1 of
             (fb, n2) \<Rightarrow>
               if should_revise (s1\<lparr>feedback := fb\<rparr>) = END
               then (Inr (s1\<lparr>feedback := fb\<rparr>), [Drafted (expanded_chunk s1), Reviewed fb], n2)
               else
                 (case revise_loop E service n2 (s1\<lparr>feedback := fb\<rparr>) of
                    (r, evs, n3) \<Rightarrow>
                      (r, [Drafted (expanded_chunk s1), Reviewed fb] @ evs, n3))))"
  by pat_completeness auto
termination
proof (relation "measure (\<lambda>(E, service, n, s). nat (MAX_REVISIONS - revision_count s))")
  show "wf (measure (\<lambda>(E, service, n, s). nat (MAX_REVISIONS - revision_count s)))"
    by simp
next
  fix E :: env and service :: llm and n :: nat and s :: BookState
    and x :: "py_error + BookState" and n1 :: nat and s1 :: BookState
    and fb :: string and n2 :: nat
  assume d: "(x, n1) = drafter_node E service n s" and x: "x = Inr s1"
    and r: "should_revise (s1\<lparr>feedback := fb\<rparr>) \<noteq> END"
  from d x have "revision_count s1 = revision_count s + 1"
    by (auto simp: drafter_node_def Let_def split: if_splits prod.splits option.splits)
  moreover from r have "revision_count s1 < MAX_REVISIONS"
    by (auto simp: should_revise_def split: if_splits)
  ultimately show
    "((E, service, n2, s1\<lparr>feedback := fb\<rparr>), (E, service, n, s))
       \<in> measure (\<lambda>(E, service, n, s). nat (MAX_REVISIONS - revision_count s))"
    by simp
qed

definition ainvoke ::
  "env \<Rightarrow> llm \<Rightarrow> nat \<Rightarrow> BookState \<Rightarrow> (py_error + BookState) \<times> graph_event list \<times> nat" where
  "ainvoke E service n s0 = revise_loop E service n (s0\<lparr>analysis := analyst_node E s0\<rparr>)"

section \<open>Bounded scheduler (\<open>main.py\<close>, lines 277 to 423)\<close>

text \<open>
  The files the scheduler touches: the per-unit checkpoints \<open>chunk_NNNN.md\<close>, by unit
  index, and the lines appended to \<open>dlq_failed_chunks.jsonl\<close> (chunk index, reason,
  content). \<open>read_text\<close> of a checkpoint is the text \<open>write_text\<close> stored.
\<close>

record phase2_files =
  chunk_files :: "nat \<Rightarrow> string option"
  dlq_failed_chunks :: "(nat \<times> string \<times> string) list"

text \<open>\<open>int(a / b)\<close> for a positive divisor: the quotient rounded towards zero.\<close>

definition int_truediv :: "int \<Rightarrow> int \<Rightarrow> int" where
  "int_truediv a b = (if a \<ge> 0 then a div b else - ((- a) div b))"

definition initial_state :: "env \<Rightarrow> nat \<Rightarrow> string \<Rightarrow> BookState" where
  "initial_state E n_units chunk =
     \<lparr>current_chunk = chunk, analysis = [], expanded_chunk = [], feedback = [],
      revision_count = 0,
      target_chars = min (max (int_truediv (TARGET_PAGES E * 3000) (int n_units))
                              (int (length chunk) * 4)) 22000\<rparr>"

definition log_failure :: "nat \<Rightarrow> string \<Rightarrow> string \<Rightarrow> phase2_files \<Rightarrow> phase2_files" where
  "log_failure i reason chunk fs =
     fs\<lparr>dlq_failed_chunks := dlq_failed_chunks fs @ [(i + 1, reason, chunk)]\<rparr>"

text \<open>
  The body of \<open>process_chunk\<close> under the semaphore (lines 283 to 400), for a unit
  without a checkpoint: the unit's text, the files afterwards and the number of service
  calls afterwards. \<open>n_units\<close> is the number of units of the run, at least 1 whenever
  a unit is processed. An exception of the graph is caught and the original text kept.
\<close>

definition expand_unit ::
  "env \<Rightarrow> llm \<Rightarrow> nat \<Rightarrow> phase2_files \<Rightarrow> nat \<Rightarrow> nat \<Rightarrow> string \<Rightarrow> string \<times> phase2_files \<times> nat" where
  "expand_unit E service n_units fs n i chunk =
     (if blank chunk then (chunk, fs, n)
      else
        (case ainvoke E service n (initial_state E n_units chunk) of
           (Inl e, evs, n') \<Rightarrow>
             (chunk, log_failure i (case e of Exception msg \<Rightarrow> msg | _ \<Rightarrow> []) chunk fs, n')
         | (Inr result, evs, n') \<Rightarrow>
             (let expanded =
                (if expanded_chunk result \<noteq> [] then expanded_chunk result
                 else if current_chunk result \<noteq> [] then current_chunk result
                 else chunk) in
              if blank expanded
              then (chunk, log_failure i ''empty_expansion'' chunk fs, n')
              else if expanded = chunk
              then (expanded, log_failure i ''unchanged_expansion'' chunk fs, n')
              else (expanded, fs, n'))))"

text \<open>
  \<open>process_chunk\<close>: a unit whose checkpoint file exists returns the stored text at
  once; any other unit is expanded and its text written to its checkpoint.
\<close>

definition process_chunk ::
  "env \<Rightarrow> llm \<Rightarrow> nat \<Rightarrow> phase2_files \<Rightarrow> nat \<Rightarrow> nat \<Rightarrow> string \<Rightarrow> string \<times> phase2_files \<times> nat" where
  "process_chunk E service n_units fs n i chunk =
     (case chunk_files fs i of
        Some stored \<Rightarrow> (stored, fs, n)
      | None \<Rightarrow>
          (case expand_unit E service n_units fs n i chunk of
             (expanded, fs1, n1) \<Rightarrow>
               (expanded, fs1\<lparr>chunk_files := (chunk_files fs1)(i \<mapsto> expanded)\<rparr>, n1)))"

text \<open>
  \<open>run_phase_2\<close>: one task per unit, gathered in the order of the units. The tasks
  are taken in index order; each touches only its own checkpoint.
\<close>

fun run_tasks ::
  "env \<Rightarrow> llm \<Rightarrow> nat \<Rightarrow> phase2_files \<Rightarrow> nat \<Rightarrow> nat \<Rightarrow> string list \<Rightarrow>
   string list \<times> phase2_files \<times> nat" where
  "run_tasks E service n_units fs n i [] = ([], fs, n)"
| "run_tasks E service n_units fs n i (chunk # rest) =
     (case process_chunk E service n_units fs n i chunk of
        (expanded, fs1, n1) \<Rightarrow>
          (case run_tasks E service n_units fs1 n1 (Suc i) rest of
             (results, fs2, n2) \<Rightarrow> (expanded # results, fs2, n2)))"

definition run_phase_2 ::
  "env \<Rightarrow> llm \<Rightarrow> phase2_files \<Rightarrow> nat \<Rightarrow> string list \<Rightarrow> string list \<times> phase2_files \<times> nat" where
  "run_phase_2 E service fs n chunks = run_tasks E service (length chunks) fs n 0 chunks"

subsection \<open>Auxiliary notions for the dead letter queue\<close>

text \<open>No row of the store with this id has a status other than \<open>resolved\<close>.\<close>

definition resolved_in :: "dlq \<Rightarrow> string \<Rightarrow> bool" where
  "resolved_in db chunk_id =
     list_all (\<lambda>r. row_id r \<noteq> chunk_id \<or> row_status r = ''resolved'') db"

text \<open>A store with one failed chunk, and a run of later operations on other ids.\<close>

definition db42 :: dlq where
  "db42 = push ''t0'' ''chunk_42'' ''x'' ''rate limit'' 4 []"

definition ops42 :: "dlq_op list" where
  "ops42 = [Push ''t2'' ''chunk_7'' ''y'' ''err'' 4, MarkResolved ''t3'' ''chunk_7'',
            RetryAll ''t4'' (\<lambda>t k. True) 3]"

subsection \<open>Auxiliary notions for the review step\<close>

text \<open>The router's test for the approval token.\<close>

definition approved :: "string \<Rightarrow> bool" where
  "approved fb = startswith (upper fb) ''APPROVED''"

text \<open>
  A reply the critic's loop sleeps on and retries, and a reply that ends the review
  without a usable answer: an exception that is not a network error, or a response that
  is empty or malformed.
\<close>

fun retryable_reply :: "llm_reply \<Rightarrow> bool" where
  "retryable_reply APIConnectionError = True"
| "retryable_reply (OtherError msg) = retryable msg"
| "retryable_reply (Response r) = False"

fun failing_reply :: "llm_reply \<Rightarrow> bool" where
  "failing_reply APIConnectionError = False"
| "failing_reply (OtherError msg) = (\<not> retryable msg)"
| "failing_reply (Response NoChoices) = True"
| "failing_reply (Response BadShape) = True"
| "failing_reply (Response (Content None)) = True"
| "failing_reply (Response (Content (Some content))) = (content = [])"

text \<open>
  The critic service fails for a review that starts at call number \<open>n\<close>: the API key
  of a Gemini model is missing, or after some retried network errors (fewer than five)
  a reply fails, or all five attempts are network errors.
\<close>

definition critic_service_failure :: "env \<Rightarrow> llm \<Rightarrow> nat \<Rightarrow> bool" where
  "critic_service_failure E service n =
     ((is_gemini (get_model E) \<and> \<not> api_key_present E) \<or>
      list_ex (\<lambda>k. list_all (\<lambda>j. retryable_reply (service (n + j))) [0..<k] \<and>
                    failing_reply (service (n + k))) [0..<5] \<or>
      list_all (\<lambda>j. retryable_reply (service (n + j))) [0..<5])"

text \<open>
  The critic service returns the non-empty content \<open>content\<close> at attempt \<open>k\<close> of a
  review that starts at call number \<open>n\<close>.
\<close>

definition critic_returns :: "env \<Rightarrow> llm \<Rightarrow> nat \<Rightarrow> nat \<Rightarrow> string \<Rightarrow> bool" where
  "critic_returns E service n k content =
     (\<not> (is_gemini (get_model E) \<and> \<not> api_key_present E) \<and> k < 5 \<and>
      list_all (\<lambda>j. retryable_reply (service (n + j))) [0..<k] \<and>
      service (n + k) = Response (Content (Some content)) \<and> content \<noteq> [])"

text \<open>An environment with an API key, and a draft that passes the local checks.\<close>

definition env0 :: env where
  "env0 = \<lparr>DEFAULT_MODEL = None, LLM_PROVIDER = None, MATH_MODEL = None, FLASH_MODEL = None,
           GOOGLE_API_KEY = Some ''key'', GEMINI_API_KEY = None, TARGET_PAGES = 600\<rparr>"

definition reviewed0 :: BookState where
  "reviewed0 = \<lparr>current_chunk = ''Heat.'', analysis = [], expanded_chunk = ''Heat flows.'',
                feedback = [], revision_count = 1, target_chars = 5\<rparr>"

subsection \<open>Auxiliary notions for the revision loop\<close>

text \<open>The drafts and the reviews of a run of the graph, in order.\<close>

fun drafts_of :: "graph_event list \<Rightarrow> string list" where
  "drafts_of [] = []"
| "drafts_of (Drafted d # evs) = d # drafts_of evs"
| "drafts_of (Reviewed fb # evs) = drafts_of evs"

fun reviews_of :: "graph_event list \<Rightarrow> string list" where
  "reviews_of [] = []"
| "reviews_of (Drafted d # evs) = reviews_of evs"
| "reviews_of (Reviewed fb # evs) = fb # reviews_of evs"

text \<open>What the drafter returns when it does not call the service.\<close>

definition redraft :: "BookState \<Rightarrow> BookState" where
  "redraft s = s\<lparr>expanded_chunk := current_chunk s, revision_count := revision_count s + 1\<rparr>"

text \<open>No checkpoint yet, and a service whose replies are never reached.\<close>

definition files0 :: phase2_files where
  "files0 = \<lparr>chunk_files = Map.empty, dlq_failed_chunks = []\<rparr>"

definition service0 :: llm where
  "service0 = (\<lambda>k. APIConnectionError)"

subsection \<open>Auxiliary notions for the segmenter\<close>

text \<open>The characters of a text that are not whitespace, in order.\<close>

definition visible :: "string \<Rightarrow> string" where
  "visible s = filter (\<lambda>c. \<not> isspace c) s"

text \<open>Every unit of a list is at most \<open>m\<close> characters long.\<close>

definition within :: "int \<Rightarrow> string list \<Rightarrow> bool" where
  "within m units = list_all (\<lambda>u. int (length u) \<le> m) units"

text \<open>
  The invariants of the two packing loops: every chunk emitted so far is within the
  limit; a pending \<open>para_current\<close> will be within the limit once stripped; a pending
  \<open>current\<close> joins to a text within the limit, and \<open>current_len\<close> is the length
  of that text plus 2.
\<close>

definition sentences_inv :: "int \<Rightarrow> string list \<times> string \<Rightarrow> bool" where
  "sentences_inv m st =
     (case st of (chunks, para_current) \<Rightarrow>
        within m chunks \<and> (para_current \<noteq> [] \<longrightarrow> int (length (strip para_current)) \<le> m))"

definition paragraphs_inv :: "int \<Rightarrow> string list \<times> string list \<times> int \<Rightarrow> bool" where
  "paragraphs_inv m st =
     (case st of (chunks, current, current_len) \<Rightarrow>
        within m chunks \<and>
        (current = [] \<longrightarrow> current_len = 0) \<and>
        (current \<noteq> [] \<longrightarrow>
           int (length (join_nn current)) + 2 = current_len \<and>
           int (length (join_nn current)) \<le> m))"

chapter \<open>Properties\<close>

section \<open>Phase checkpoint and resume\<close>

lemma main_run_skips:
  "p < start_phase \<Longrightarrow> p \<le> 3 \<Longrightarrow>
   PhaseBody p \<notin> set (main_run completes pdf_path start_phase is_resume)"
  by (auto simp: main_run_def Let_def)

lemma main_run_no_purge:
  "is_resume \<Longrightarrow> Purge \<notin> set (main_run completes pdf_path start_phase is_resume)"
  by (simp add: main_run_def Let_def)

text \<open>
  Claim C3. A run started with \<open>--resume\<close> takes \<open>start_phase\<close> to be the checkpoint's
  \<open>completed_phase\<close> plus one. When that exceeds 4 the run reports that the pipeline is
  already complete and enters no step at all. Otherwise it either stops on a missing
  input (possible only when \<open>start_phase\<close> is at most 1) or runs \<open>main\<close> from
  \<open>start_phase\<close>, and then the body of no phase from 1 up to the checkpoint's phase is
  entered, nor is anything purged.
\<close>

theorem resume_skips_completed_phases:
  assumes "arg_resume args"
  shows "(load_completed_phase sf + 1 > 4 \<longrightarrow>
            cli_main completes args sf = AlreadyComplete \<and>
            steps_of (cli_main completes args sf) = [])
       \<and> (load_completed_phase sf + 1 \<le> 4 \<longrightarrow>
            (cli_main completes args sf = FileNotFound \<or>
             (\<exists>t. cli_main completes args sf = Ran (load_completed_phase sf + 1) t)) \<and>
            Purge \<notin> set (steps_of (cli_main completes args sf)) \<and>
            (\<forall>p. 1 \<le> p \<and> p \<le> load_completed_phase sf \<longrightarrow>
                 PhaseBody p \<notin> set (steps_of (cli_main completes args sf))))"
  using assms
  by (auto simp: cli_main_def steps_of_def Let_def main_run_skips main_run_no_purge)

theorem resume_skips_completed_phases_witness:
  "cli_main (\<lambda>p. True)
     \<lparr>pdf_input = None, pdf_input_exists = False, arg_resume = True, arg_phase = None,
      arg_is_resume = False\<rparr> (Saved (Some 2)) = Ran 3 [PhaseBody 3, PhaseBody 4]
   \<and> PhaseBody 1 \<notin> set (steps_of (cli_main (\<lambda>p. True)
     \<lparr>pdf_input = None, pdf_input_exists = False, arg_resume = True, arg_phase = None,
      arg_is_resume = False\<rparr> (Saved (Some 2))))
   \<and> PhaseBody 2 \<notin> set (steps_of (cli_main (\<lambda>p. True)
     \<lparr>pdf_input = None, pdf_input_exists = False, arg_resume = True, arg_phase = None,
      arg_is_resume = False\<rparr> (Saved (Some 2))))
   \<and> cli_main (\<lambda>p. True)
     \<lparr>pdf_input = None, pdf_input_exists = False, arg_resume = True, arg_phase = None,
      arg_is_resume = False\<rparr> (Saved (Some 4)) = AlreadyComplete"
  using resume_skips_completed_phases
    [of "\<lparr>pdf_input = None, pdf_input_exists = False, arg_resume = True, arg_phase = None,
          arg_is_resume = False\<rparr>" "Saved (Some 2)" "\<lambda>p. True"]
  by (simp add: cli_main_def steps_of_def main_run_def load_completed_phase_def)

section \<open>The purge of a fresh run\<close>

lemma map_of_filter_key:
  "map_of (filter (\<lambda>(name, node). P name) entries) name =
     (if P name then map_of entries name else None)"
  by (induction entries) auto

lemma purge_keeps_direct_entry:
  "map_of entries name = Some node \<Longrightarrow>
   pdf_path = Some (output_dir @ [name]) \<or> name = ''jobs.json'' \<Longrightarrow>
   \<exists>entries'. purge_output_dir locked output_dir pdf_path (Some entries) = Some entries' \<and>
              map_of entries' name = Some node"
  by (auto simp: purge_output_dir_def clear_with_exceptions_def List.map_filter_simps Let_def
         map_of_filter_key split: option.splits)

text \<open>
  Claim C4 (the code departs from it). The purge compares only the direct entries of the
  output directory with the preserved paths. With the input PDF at
  \<open>output/uploads/book.pdf\<close>, the entry \<open>uploads\<close> is not a preserved path, so it is
  removed with everything below it: the PDF exists before the purge and not after.
  \<open>jobs.json\<close>, a direct entry, is kept.
\<close>

theorem purge_removes_nested_input:
  "path_exists_in (Some [(''uploads'', Dir [(''book.pdf'', File)]), (''jobs.json'', File)])
     [''uploads'', ''book.pdf''] \<and>
   purge_output_dir (\<lambda>name. False) [''app'', ''data'', ''output'']
     (Some [''app'', ''data'', ''output'', ''uploads'', ''book.pdf''])
     (Some [(''uploads'', Dir [(''book.pdf'', File)]), (''jobs.json'', File)]) =
     Some [(''jobs.json'', File)] \<and>
   \<not> path_exists_in
     (purge_output_dir (\<lambda>name. False) [''app'', ''data'', ''output'']
        (Some [''app'', ''data'', ''output'', ''uploads'', ''book.pdf''])
        (Some [(''uploads'', Dir [(''book.pdf'', File)]), (''jobs.json'', File)]))
     [''uploads'', ''book.pdf'']"
  by (simp add: path_exists_in_def purge_output_dir_def clear_with_exceptions_def
      List.map_filter_simps)

section \<open>Event broker\<close>

lemma publish_loop_all_full:
  "list_all full qs \<Longrightarrow> publish_loop event qs = (None, qs)"
  by (induction qs) (auto simp: put_nowait_def)

text \<open>
  Claim C6 (the code departs from it). A job has two subscribers, both with an empty
  queue of capacity 100. \<open>publish\<close> puts the event into the first queue, then
  \<open>await\<close> of the \<open>None\<close> that \<open>put_nowait\<close> returned raises \<open>TypeError\<close>:
  \<open>publish\<close> ends with that exception and the second queue never receives the event.
\<close>

theorem publish_stops_at_first_free_queue:
  "publish (\<lambda>job. if job = ''job-1''
              then [\<lparr>items = [], maxsize = 100\<rparr>, \<lparr>items = [], maxsize = 100\<rparr>] else [])
           ''job-1'' ''progress'' =
     (Some TypeError,
      (\<lambda>job. if job = ''job-1''
              then [\<lparr>items = [], maxsize = 100\<rparr>, \<lparr>items = [], maxsize = 100\<rparr>] else [])
        (''job-1'' := [\<lparr>items = [''progress''], maxsize = 100\<rparr>,
                       \<lparr>items = [], maxsize = 100\<rparr>]))"
  by (simp add: publish_def put_nowait_def full_def)

section \<open>Segmenter\<close>

text \<open>
  Claim C9 (the code departs from it). With \<open>MAX_CHUNK_CHARS = 10\<close> the text
  \<open>aaaaaaaaaa\n\n\n\nbbbbbbbbb\<close> has the paragraphs \<open>aaaaaaaaaa\<close>, the empty
  paragraph and \<open>bbbbbbbbb\<close>. The empty paragraph does not fit after the first one
  (12 + 0 > 10), so it starts a buffer of its own; the third paragraph does not fit
  after it (2 + 9 > 10), so the buffer \<open>[""]\<close>, a non-empty list, is flushed as the
  empty string.
\<close>

theorem hard_split_emits_empty_unit:
  "chunk_manuscript 10 (Some (''aaaaaaaaaa'' @ nn @ nn @ ''bbbbbbbbb'')) =
     Inr [''aaaaaaaaaa'', [], ''bbbbbbbbb'']"
  by code_simp

section \<open>Dead letter queue\<close>

lemma resolved_in_mark: "resolved_in (mark_resolved now chunk_id db) chunk_id"
  by (induction db) (simp_all add: resolved_in_def mark_resolved_def)

lemma resolved_in_mark_other: "resolved_in db c \<Longrightarrow> resolved_in (mark_resolved now i db) c"
  by (induction db) (simp_all add: resolved_in_def mark_resolved_def)

lemma resolved_in_push_other: "resolved_in db c \<Longrightarrow> i \<noteq> c \<Longrightarrow> resolved_in (push now i t e p db) c"
  by (induction db) (simp_all add: resolved_in_def push_def)

lemma resolved_in_retry_items:
  "resolved_in db c \<Longrightarrow> resolved_in (snd (retry_items now processor k its db)) c"
  by (induction its arbitrary: db) (simp_all add: split_beta resolved_in_mark_other)

lemma resolved_in_apply_op: "resolved_in db c \<Longrightarrow> \<not> pushes c op \<Longrightarrow> resolved_in (apply_op op db) c"
  by (cases op) (simp_all add: resolved_in_mark_other resolved_in_push_other retry_all_def resolved_in_retry_items)

lemma resolved_in_run_ops:
  "resolved_in db c \<Longrightarrow> list_all (\<lambda>op. \<not> pushes c op) ops \<Longrightarrow> resolved_in (run_ops ops db) c"
  by (induction ops arbitrary: db) (simp_all add: resolved_in_apply_op)

lemma ids_mark: "map row_id (mark_resolved now i db) = map row_id db"
  by (induction db) (simp_all add: mark_resolved_def)

lemma ids_push: "c \<in> set (map row_id db) \<Longrightarrow> c \<in> set (map row_id (push now i t e p db))"
  by (cases "c = i") (auto simp: push_def)

lemma ids_retry_items: "map row_id (snd (retry_items now processor k its db)) = map row_id db"
  by (induction its arbitrary: db) (simp_all add: split_beta ids_mark)

lemma ids_apply_op: "c \<in> set (map row_id db) \<Longrightarrow> c \<in> set (map row_id (apply_op op db))"
proof (cases op)
  case (Push now i t e p)
  assume "c \<in> set (map row_id db)"
  then show ?thesis unfolding Push apply_op.simps by (rule ids_push)
next
  case (MarkResolved now i)
  assume "c \<in> set (map row_id db)"
  then show ?thesis unfolding MarkResolved apply_op.simps ids_mark .
next
  case (RetryAll now processor k)
  assume "c \<in> set (map row_id db)"
  then show ?thesis unfolding RetryAll apply_op.simps retry_all_def ids_retry_items .
qed

lemma ids_run_ops: "c \<in> set (map row_id db) \<Longrightarrow> c \<in> set (map row_id (run_ops ops db))"
proof (induction ops arbitrary: db)
  case Nil then show ?case by simp
next
  case (Cons op ops)
  from Cons.prems have "c \<in> set (map row_id (apply_op op db))" by (rule ids_apply_op)
  from Cons.IH [OF this] show ?case by simp
qed

lemma status_of_resolved:
  "resolved_in db c \<Longrightarrow> c \<in> set (map row_id db) \<Longrightarrow> status_of db c = Some ''resolved''"
  by (induction db) (auto simp: resolved_in_def status_of_def)

lemma not_pending: "resolved_in db c \<Longrightarrow> c \<notin> set (map item_id (get_all ''pending'' db))"
  by (induction db) (auto simp: resolved_in_def get_all_def)

text \<open>
  Claim C10, as amended. For an id that has a record in the store, after
  \<open>mark_resolved\<close> the record's status is \<open>resolved\<close>; and after any later run of
  \<open>push\<close>, \<open>mark_resolved\<close> and \<open>retry_all\<close> operations in which that id is not
  pushed again, the status is still \<open>resolved\<close> and \<open>get_all("pending")\<close> does not
  include the id.
\<close>

theorem resolved_stays_out_of_pending:
  assumes "chunk_id \<in> set (map row_id db)"
    and "list_all (\<lambda>op. \<not> pushes chunk_id op) ops"
  shows "status_of (mark_resolved now chunk_id db) chunk_id = Some ''resolved'' \<and>
         status_of (run_ops ops (mark_resolved now chunk_id db)) chunk_id = Some ''resolved'' \<and>
         chunk_id \<notin> set (map item_id (get_all ''pending'' (run_ops ops (mark_resolved now chunk_id db))))"
proof -
  have r0: "resolved_in (mark_resolved now chunk_id db) chunk_id" by (rule resolved_in_mark)
  have i0: "chunk_id \<in> set (map row_id (mark_resolved now chunk_id db))"
    using assms(1) by (simp only: ids_mark)
  have r: "resolved_in (run_ops ops (mark_resolved now chunk_id db)) chunk_id"
    using r0 assms(2) by (rule resolved_in_run_ops)
  have i: "chunk_id \<in> set (map row_id (run_ops ops (mark_resolved now chunk_id db)))"
    using i0 by (rule ids_run_ops)
  show ?thesis
    using status_of_resolved [OF r0 i0] status_of_resolved [OF r i] not_pending [OF r] by blast
qed

lemma db42_has_chunk_42: "''chunk_42'' \<in> set (map row_id db42)"
  by (simp add: db42_def push_def)

lemma ops42_do_not_push_chunk_42: "list_all (\<lambda>op. \<not> pushes ''chunk_42'' op) ops42"
  by (simp add: ops42_def)

theorem resolved_stays_out_of_pending_witness:
  "''chunk_42'' \<in> set (map row_id (push ''t0'' ''chunk_42'' ''x'' ''rate limit'' 4 [])) \<and>
   status_of (run_ops [Push ''t2'' ''chunk_7'' ''y'' ''err'' 4, MarkResolved ''t3'' ''chunk_7'',
                       RetryAll ''t4'' (\<lambda>t k. True) 3]
       (mark_resolved ''t1'' ''chunk_42'' (push ''t0'' ''chunk_42'' ''x'' ''rate limit'' 4 []))) ''chunk_42''
     = Some ''resolved'' \<and>
   ''chunk_42'' \<notin> set (map item_id (get_all ''pending''
     (run_ops [Push ''t2'' ''chunk_7'' ''y'' ''err'' 4, MarkResolved ''t3'' ''chunk_7'',
               RetryAll ''t4'' (\<lambda>t k. True) 3]
       (mark_resolved ''t1'' ''chunk_42'' (push ''t0'' ''chunk_42'' ''x'' ''rate limit'' 4 [])))))"
  using resolved_stays_out_of_pending [OF db42_has_chunk_42 ops42_do_not_push_chunk_42, of "''t1''"] db42_has_chunk_42
  unfolding db42_def ops42_def by blast

text \<open>
  Claim C10 as stated fails: \<open>push\<close> is \<open>INSERT OR REPLACE\<close> with status
  \<open>pending\<close>, so a record that was marked resolved and is pushed again is offered
  again by \<open>get_all("pending")\<close>.
\<close>

theorem repushed_record_is_pending_again:
  "''chunk_42'' \<in> set (map item_id (get_all ''pending''
     (run_ops [Push ''t2'' ''chunk_42'' ''x'' ''rate limit'' 4]
        (mark_resolved ''t1'' ''chunk_42'' (push ''t0'' ''chunk_42'' ''x'' ''rate limit'' 4 [])))))"
  by (simp add: push_def mark_resolved_def get_all_def)

section \<open>Review step\<close>

lemma critic_attempts_skip:
  "list_all (\<lambda>j. retryable_reply (service (n + j))) [0..<m] \<Longrightarrow>
   critic_attempts (m + k) service n = critic_attempts k service (n + m)"
proof (induction m arbitrary: n)
  case 0
  then show ?case by simp
next
  case (Suc m)
  from Suc.prems have all: "\<forall>j<Suc m. retryable_reply (service (n + j))"
    by (auto simp: list_all_iff less_Suc_eq)
  then have r0: "retryable_reply (service n)" by force
  from all have "\<forall>j<m. retryable_reply (service (Suc n + j))" by auto
  then have "list_all (\<lambda>j. retryable_reply (service (Suc n + j))) [0..<m]"
    by (simp add: list_all_iff)
  from Suc.IH [OF this] have ih: "critic_attempts (m + k) service (Suc n) = critic_attempts k service (Suc n + m)" .
  from r0 have "critic_attempts (Suc (m + k)) service n = critic_attempts (m + k) service (Suc n)"
    by (cases "service n") simp_all
  with ih show ?case by simp
qed

lemma critic_attempts_exhausted:
  "list_all (\<lambda>j. retryable_reply (service (n + j))) [0..<5] \<Longrightarrow>
   critic_attempts 5 service n = (Exhausted, n + 5)"
  using critic_attempts_skip [of service n 5 0] by simp

lemma remote_review_failing:
  assumes "k < 5" and "list_all (\<lambda>j. retryable_reply (service (n + j))) [0..<k]"
    and "failing_reply (service (n + k))"
  shows "fst (remote_review E service n) = ''APPROVED''"
proof -
  from assms(1) obtain d where d: "5 = k + Suc d" 
    by (metis add_Suc_right less_iff_Suc_add)
  have "critic_attempts 5 service n = critic_attempts (Suc d) service (n + k)"
    unfolding d using assms(2) by (rule critic_attempts_skip)
  moreover from assms(3) have "fst (critic_attempts (Suc d) service (n + k)) = Raised (case service (n + k) of OtherError msg \<Rightarrow> msg | _ \<Rightarrow> [])
     \<or> (\<exists>r. fst (critic_attempts (Suc d) service (n + k)) = Got r \<and> (r = NoChoices \<or> r = BadShape \<or> r = Content None \<or> r = Content (Some [])))"
    by (cases "service (n + k)" rule: failing_reply.cases) simp_all
  ultimately show ?thesis
    by (auto simp: remote_review_def split: prod.splits call_outcome.splits response.splits option.splits)
qed

lemma approved_APPROVED: "approved ''APPROVED''"
  by code_simp

lemma remote_review_failure:
  assumes "critic_service_failure E service n"
  shows "fst (remote_review E service n) = ''APPROVED''"
proof -
  from assms consider
      (key) "is_gemini (get_model E) \<and> \<not> api_key_present E"
    | (fail) k where "k < 5" "list_all (\<lambda>j. retryable_reply (service (n + j))) [0..<k]"
        "failing_reply (service (n + k))"
    | (exh) "list_all (\<lambda>j. retryable_reply (service (n + j))) [0..<5]"
    unfolding critic_service_failure_def list_ex_iff by auto
  then show ?thesis
  proof cases
    case key
    then show ?thesis by (simp add: remote_review_def)
  next
    case fail
    then show ?thesis by (rule remote_review_failing)
  next
    case exh
    then show ?thesis by (simp add: remote_review_def critic_attempts_exhausted)
  qed
qed

lemma remote_review_returns:
  assumes "critic_returns E service n k content"
  shows "remote_review E service n = (strip content, Suc (n + k))"
proof -
  from assms have k: "k < 5" and rs: "list_all (\<lambda>j. retryable_reply (service (n + j))) [0..<k]"
    and sv: "service (n + k) = Response (Content (Some content))" and ne: "content \<noteq> []"
    and key: "\<not> (is_gemini (get_model E) \<and> \<not> api_key_present E)"
    by (simp_all add: critic_returns_def)
  from k obtain d where d: "5 = k + Suc d"
    by (metis add_Suc_right less_iff_Suc_add)
  have "critic_attempts 5 service n = critic_attempts (Suc d) service (n + k)"
    unfolding d using rs by (rule critic_attempts_skip)
  also have "\<dots> = (Got (Content (Some content)), Suc (n + k))"
    using sv by simp
  finally show ?thesis using key ne by (simp add: remote_review_def)
qed

text \<open>
  Claim C7. For a review that reaches the remote critic (the local checks return
  nothing), every failure of the critic service, that is a missing API key, a reply that
  fails after fewer than five retried network errors (an exception that is not a network
  error, a response without choices, a malformed response, an empty content), or five
  network errors in a row, gives the feedback \<open>APPROVED\<close>, and the router then ends
  the unit: no revision, and no exception leaves the node (the result is a feedback).
\<close>

theorem critic_failure_is_accepted:
  assumes "local_review s = None" and "critic_service_failure E service n"
  shows "fst (critic_node E service n s) = ''APPROVED'' \<and>
         should_revise (s\<lparr>feedback := fst (critic_node E service n s)\<rparr>) = END"
proof -
  from assms have "fst (critic_node E service n s) = ''APPROVED''"
    by (simp add: critic_node_def remote_review_failure)
  then show ?thesis
    using approved_APPROVED by (simp add: should_revise_def approved_def)
qed

theorem critic_failure_is_accepted_witness:
  "local_review reviewed0 = None \<and>
   critic_service_failure env0
     (\<lambda>k. if k < 2 then APIConnectionError else OtherError ''401 authentication failed'') 0 \<and>
   fst (critic_node env0
     (\<lambda>k. if k < 2 then APIConnectionError else OtherError ''401 authentication failed'') 0
     reviewed0) = ''APPROVED''"
proof -
  have l: "local_review reviewed0 = None"
    by code_simp
  have f: "critic_service_failure env0
     (\<lambda>k. if k < 2 then APIConnectionError else OtherError ''401 authentication failed'') 0"
    by code_simp
  show ?thesis
    using critic_failure_is_accepted [OF l f] l f by blast
qed

text \<open>
  Claim C8, as amended. When the critic service returns a non-empty content, the
  feedback is that content stripped of surrounding whitespace. The router ends the unit
  exactly when the feedback, upper-cased, begins with \<open>APPROVED\<close> (accepted) or the
  revision count has reached \<open>MAX_REVISIONS\<close> (the cap); it sends the unit back to the
  drafter, with that feedback in the state, exactly when neither holds.
\<close>

theorem returned_review_decides_outcome:
  assumes "local_review s = None" and "critic_returns E service n k content"
  shows "fst (critic_node E service n s) = strip content \<and>
         feedback (s\<lparr>feedback := fst (critic_node E service n s)\<rparr>) = strip content \<and>
         (should_revise (s\<lparr>feedback := fst (critic_node E service n s)\<rparr>) = END \<longleftrightarrow>
            startswith (upper (strip content)) ''APPROVED'' \<or> revision_count s \<ge> MAX_REVISIONS) \<and>
         (should_revise (s\<lparr>feedback := fst (critic_node E service n s)\<rparr>) = To_drafter \<longleftrightarrow>
            \<not> startswith (upper (strip content)) ''APPROVED'' \<and> revision_count s < MAX_REVISIONS)"
proof -
  from assms have "fst (critic_node E service n s) = strip content"
    by (simp add: critic_node_def remote_review_returns)
  then show ?thesis by (auto simp: should_revise_def)
qed

theorem returned_review_decides_outcome_witness:
  "local_review reviewed0 = None \<and>
   critic_returns env0
     (\<lambda>k. if k < 1 then APIConnectionError else Response (Content (Some '' Too short. ''))) 0 1
     '' Too short. '' \<and>
   fst (critic_node env0
     (\<lambda>k. if k < 1 then APIConnectionError else Response (Content (Some '' Too short. ''))) 0
     reviewed0) = ''Too short.'' \<and>
   should_revise (reviewed0\<lparr>feedback := fst (critic_node env0
     (\<lambda>k. if k < 1 then APIConnectionError else Response (Content (Some '' Too short. ''))) 0
     reviewed0)\<rparr>) = To_drafter"
proof -
  have l: "local_review reviewed0 = None"
    by code_simp
  have r: "critic_returns env0
     (\<lambda>k. if k < 1 then APIConnectionError else Response (Content (Some '' Too short. ''))) 0 1
     '' Too short. ''"
    by code_simp
  have s: "strip '' Too short. '' = ''Too short.''"
    by code_simp
  have a: "\<not> startswith (upper ''Too short.'') ''APPROVED''"
    by code_simp
  have c: "revision_count reviewed0 < MAX_REVISIONS"
    by code_simp
  show ?thesis
    using returned_review_decides_outcome [OF l r] l r a c unfolding s by blast
qed

text \<open>
  Claim C8 as stated fails: the response \<open>approved, well done\<close> does not begin with
  the literal token \<open>APPROVED\<close>, yet the router compares the upper-cased feedback and
  accepts it.
\<close>

theorem lowercase_approval_is_accepted:
  "local_review reviewed0 = None \<and>
   critic_returns env0 (\<lambda>k. Response (Content (Some ''approved, well done''))) 0 0
     ''approved, well done'' \<and>
   should_revise (reviewed0\<lparr>feedback := fst (critic_node env0
     (\<lambda>k. Response (Content (Some ''approved, well done''))) 0 reviewed0)\<rparr>) = END \<and>
   \<not> startswith ''approved, well done'' ''APPROVED''"
  by code_simp

section \<open>Revision loop\<close>

lemma provider_name_error_not_retryable: "\<not> retryable provider_name_error"
  by code_simp

lemma analyst_node_error:
  "startswith (analyst_node E s) ''Error: Analyst'' \<and> analyst_node E s \<noteq> []"
  by (simp add: analyst_node_def Let_def eval_nat_numeral provider_name_error_not_retryable
      startswith_def)

lemma drafter_node_after_analyst_error:
  "startswith (analysis s) ''Error: Analyst'' \<Longrightarrow> analysis s \<noteq> [] \<Longrightarrow>
   drafter_node E service n s = (Inr (redraft s), n)"
  by (simp add: drafter_node_def Let_def redraft_def)

lemma revise_loop_step:
  assumes "startswith (analysis s) ''Error: Analyst''" and "analysis s \<noteq> []"
  shows "revise_loop E service n s =
     (case critic_node E service n (redraft s) of
        (fb, n2) \<Rightarrow>
          if should_revise ((redraft s)\<lparr>feedback := fb\<rparr>) = END
          then (Inr ((redraft s)\<lparr>feedback := fb\<rparr>),
                [Drafted (current_chunk s), Reviewed fb], n2)
          else
            (case revise_loop E service n2 ((redraft s)\<lparr>feedback := fb\<rparr>) of
               (r, evs, n3) \<Rightarrow> (r, [Drafted (current_chunk s), Reviewed fb] @ evs, n3)))"
  by (subst revise_loop.simps)
     (simp add: drafter_node_after_analyst_error [OF assms] redraft_def split: prod.splits)

lemma critic_node_blank_draft:
  "blank (expanded_chunk s) \<Longrightarrow> fst (critic_node E service n s) = ''APPROVED''"
  by (simp add: critic_node_def local_review_def Let_def)

lemma revise_loop_rejecting:
  "startswith (analysis s) ''Error: Analyst'' \<Longrightarrow> analysis s \<noteq> [] \<Longrightarrow>
   revision_count s = MAX_REVISIONS - 1 - int k \<Longrightarrow>
   revise_loop E service n s = (r, evs, n') \<Longrightarrow>
   list_all (\<lambda>fb. \<not> approved fb) (reviews_of evs) \<Longrightarrow>
   \<exists>sf. r = Inr sf \<and> revision_count sf = MAX_REVISIONS \<and>
        expanded_chunk sf = current_chunk s \<and> \<not> blank (current_chunk s) \<and>
        drafts_of evs = replicate (Suc k) (current_chunk s) \<and>
        length (reviews_of evs) = Suc k"
proof (induction k arbitrary: s n r evs n')
  case 0
  obtain fb n2 where c: "critic_node E service n (redraft s) = (fb, n2)"
    by (cases "critic_node E service n (redraft s)")
  have rc: "revision_count (redraft s) = MAX_REVISIONS"
    using "0.prems"(3) by (simp add: redraft_def)
  then have e: "should_revise ((redraft s)\<lparr>feedback := fb\<rparr>) = END"
    by (simp add: should_revise_def)
  from "0.prems"(4) have res: "r = Inr ((redraft s)\<lparr>feedback := fb\<rparr>)"
    "evs = [Drafted (current_chunk s), Reviewed fb]"
    unfolding revise_loop_step [OF "0.prems"(1,2)] c using e by simp_all
  from "0.prems"(5) res have na: "\<not> approved fb" by simp
  have nb: "\<not> blank (current_chunk s)"
  proof
    assume "blank (current_chunk s)"
    then have "blank (expanded_chunk (redraft s))" by (simp add: redraft_def)
    from critic_node_blank_draft [OF this, of E service n] c have "fb = ''APPROVED''" by simp
    with na approved_APPROVED show False by simp
  qed
  show ?case using res rc nb by (simp add: redraft_def)
next
  case (Suc k)
  obtain fb n2 where c: "critic_node E service n (redraft s) = (fb, n2)"
    by (cases "critic_node E service n (redraft s)")
  let ?s2 = "(redraft s)\<lparr>feedback := fb\<rparr>"
  obtain r2 evs2 n3 where l: "revise_loop E service n2 ?s2 = (r2, evs2, n3)"
    by (cases "revise_loop E service n2 ?s2")
  have rc: "revision_count ?s2 = MAX_REVISIONS - 1 - int k"
    using Suc.prems(3) by (simp add: redraft_def)
  then have lt: "revision_count ?s2 < MAX_REVISIONS" by simp
  have an: "startswith (analysis ?s2) ''Error: Analyst''" "analysis ?s2 \<noteq> []"
    using Suc.prems(1,2) by (simp_all add: redraft_def)
  show ?case
  proof (cases "approved fb")
    case True
    then have e: "should_revise ?s2 = END" by (simp add: should_revise_def approved_def)
    from Suc.prems(4) have "evs = [Drafted (current_chunk s), Reviewed fb]"
      unfolding revise_loop_step [OF Suc.prems(1,2)] c using e by simp
    with Suc.prems(5) True show ?thesis by simp
  next
    case False
    then have e: "should_revise ?s2 \<noteq> END"
      using lt by (simp add: should_revise_def approved_def)
    from Suc.prems(4) have res: "r = r2" "evs = [Drafted (current_chunk s), Reviewed fb] @ evs2"
      unfolding revise_loop_step [OF Suc.prems(1,2)] c using e l by simp_all
    from Suc.prems(5) res have rej: "list_all (\<lambda>fb. \<not> approved fb) (reviews_of evs2)" by simp
    from Suc.IH [OF an rc l rej] obtain sf where sf: "r2 = Inr sf" "revision_count sf = MAX_REVISIONS"
      "expanded_chunk sf = current_chunk ?s2" "\<not> blank (current_chunk ?s2)"
      "drafts_of evs2 = replicate (Suc k) (current_chunk ?s2)" "length (reviews_of evs2) = Suc k"
      by blast
    have cc: "current_chunk ?s2 = current_chunk s" by (simp add: redraft_def)
    show ?thesis using sf res unfolding cc by simp
  qed
qed

lemma initial_state_fields:
  "current_chunk (initial_state E n_units chunk) = chunk"
  "revision_count (initial_state E n_units chunk) = 0"
  by (simp_all add: initial_state_def)

lemma low_effort_not_approved: "\<not> approved (low_effort_rejection len target)"
  by (simp add: approved_def startswith_def low_effort_rejection_def upper_def upper_char_def
      islower_ascii_def)

lemma critic_node_low_effort:
  "\<not> blank (current_chunk s) \<Longrightarrow> int (length (current_chunk s)) < target_chars s \<Longrightarrow>
   critic_node E service n (redraft s) =
     (low_effort_rejection (length (current_chunk s)) (target_chars s), n)"
  by (simp add: critic_node_def local_review_def redraft_def Let_def)

lemma revise_loop_low_effort:
  "startswith (analysis s) ''Error: Analyst'' \<Longrightarrow> analysis s \<noteq> [] \<Longrightarrow>
   \<not> blank (current_chunk s) \<Longrightarrow> int (length (current_chunk s)) < target_chars s \<Longrightarrow>
   revision_count s = MAX_REVISIONS - 1 - int k \<Longrightarrow>
   \<exists>sf. revise_loop E service n s =
     (Inr sf,
      concat (replicate (Suc k)
        [Drafted (current_chunk s),
         Reviewed (low_effort_rejection (length (current_chunk s)) (target_chars s))]), n)"
proof (induction k arbitrary: s)
  case 0
  let ?fb = "low_effort_rejection (length (current_chunk s)) (target_chars s)"
  have e: "should_revise ((redraft s)\<lparr>feedback := ?fb\<rparr>) = END"
    using "0.prems"(5) by (simp add: should_revise_def redraft_def)
  show ?case
    unfolding revise_loop_step [OF "0.prems"(1,2)] critic_node_low_effort [OF "0.prems"(3,4)]
    using e by simp
next
  case (Suc k)
  let ?fb = "low_effort_rejection (length (current_chunk s)) (target_chars s)"
  let ?s2 = "(redraft s)\<lparr>feedback := ?fb\<rparr>"
  have e: "should_revise ?s2 \<noteq> END"
    using Suc.prems(5) low_effort_not_approved [of "length (current_chunk s)" "target_chars s"]
    by (simp add: should_revise_def redraft_def approved_def)
  have p: "startswith (analysis ?s2) ''Error: Analyst''" "analysis ?s2 \<noteq> []"
    "\<not> blank (current_chunk ?s2)" "int (length (current_chunk ?s2)) < target_chars ?s2"
    "revision_count ?s2 = MAX_REVISIONS - 1 - int k"
    using Suc.prems by (simp_all add: redraft_def)
  from Suc.IH [OF p] obtain sf where
    "revise_loop E service n ?s2 =
       (Inr sf, concat (replicate (Suc k) [Drafted (current_chunk s), Reviewed ?fb]), n)"
    by (auto simp: redraft_def)
  then show ?case
    unfolding revise_loop_step [OF Suc.prems(1,2)] critic_node_low_effort [OF Suc.prems(3,4)]
    using e by simp
qed

lemma ainvoke_low_effort:
  assumes "\<not> blank chunk" and "int (length chunk) < target_chars (initial_state E n_units chunk)"
  shows "\<exists>sf. ainvoke E service n (initial_state E n_units chunk) =
     (Inr sf,
      concat (replicate 3
        [Drafted chunk,
         Reviewed (low_effort_rejection (length chunk)
                     (target_chars (initial_state E n_units chunk)))]), n)"
proof -
  let ?init = "initial_state E n_units chunk"
  let ?st = "?init\<lparr>analysis := analyst_node E ?init\<rparr>"
  have p: "startswith (analysis ?st) ''Error: Analyst''" "analysis ?st \<noteq> []"
    "\<not> blank (current_chunk ?st)" "int (length (current_chunk ?st)) < target_chars ?st"
    "revision_count ?st = MAX_REVISIONS - 1 - int 2"
    using analyst_node_error [of E ?init] assms
    by (simp_all add: initial_state_fields MAX_REVISIONS_def)
  from revise_loop_low_effort [OF p, of E service n] show ?thesis
    by (simp add: ainvoke_def initial_state_fields eval_nat_numeral)
qed

text \<open>
  Claim C2. For every unit handed to the graph (the state \<open>process_chunk\<close> builds,
  with \<open>revision_count = 0\<close>), the graph returns: \<open>ainvoke\<close> is a total function,
  its loop defined with the measure \<open>MAX_REVISIONS - revision_count\<close>. When every review
  of the run is a rejection (no feedback starts with the approval token), the run ends
  normally with \<open>revision_count = MAX_REVISIONS = 3\<close> after exactly three drafts and
  three reviews, the final state holds the last draft produced, and \<open>process_chunk\<close>
  returns that draft as the unit's result.
\<close>

theorem revision_cap_reached:
  assumes "ainvoke E service n (initial_state E n_units chunk) = (r, evs, n')"
    and "list_all (\<lambda>fb. \<not> approved fb) (reviews_of evs)"
  shows "\<exists>sf. r = Inr sf \<and> revision_count sf = MAX_REVISIONS \<and>
              length (drafts_of evs) = nat MAX_REVISIONS \<and>
              length (reviews_of evs) = nat MAX_REVISIONS \<and>
              expanded_chunk sf = last (drafts_of evs) \<and>
              (chunk_files fs i = None \<longrightarrow>
                 fst (process_chunk E service n_units fs n i chunk) = last (drafts_of evs))"
proof -
  let ?init = "initial_state E n_units chunk"
  let ?st = "?init\<lparr>analysis := analyst_node E ?init\<rparr>"
  have an: "startswith (analysis ?st) ''Error: Analyst''" "analysis ?st \<noteq> []"
    using analyst_node_error [of E ?init] by simp_all
  have rc: "revision_count ?st = MAX_REVISIONS - 1 - int 2"
    by (simp add: initial_state_fields MAX_REVISIONS_def)
  have l: "revise_loop E service n ?st = (r, evs, n')"
    using assms(1) by (simp add: ainvoke_def)
  from revise_loop_rejecting [OF an rc l assms(2)] obtain sf where
    sf: "r = Inr sf" "revision_count sf = MAX_REVISIONS" "expanded_chunk sf = chunk"
      "\<not> blank chunk" "drafts_of evs = replicate 3 chunk" "length (reviews_of evs) = 3"
    by (auto simp: initial_state_fields eval_nat_numeral)
  from sf(4) have ne: "chunk \<noteq> []" by (simp add: blank_def)
  have ex: "expand_unit E service n_units fs n i chunk =
      (chunk, log_failure i ''unchanged_expansion'' chunk fs, n')"
    using assms(1) sf(1,3,4) ne by (simp add: expand_unit_def Let_def)
  have pc: "chunk_files fs i = None \<longrightarrow> fst (process_chunk E service n_units fs n i chunk) = chunk"
    by (simp add: process_chunk_def ex)
  show ?thesis
    using sf pc by (simp add: MAX_REVISIONS_def eval_nat_numeral)
qed

lemma heat_not_blank: "\<not> blank ''Heat.''"
  by code_simp

lemma heat_below_target: "int (length ''Heat.'') < target_chars (initial_state env0 3 ''Heat.'')"
  by (simp add: initial_state_def env0_def int_truediv_def)

theorem revision_cap_reached_witness:
  "\<exists>sf. ainvoke env0 service0 0 (initial_state env0 3 ''Heat.'') =
     (Inr sf,
      [Drafted ''Heat.'', Reviewed (low_effort_rejection 5 22000),
       Drafted ''Heat.'', Reviewed (low_effort_rejection 5 22000),
       Drafted ''Heat.'', Reviewed (low_effort_rejection 5 22000)], 0) \<and>
     revision_count sf = 3 \<and> expanded_chunk sf = ''Heat.'' \<and>
     fst (process_chunk env0 service0 3 files0 0 0 ''Heat.'') = ''Heat.''"
proof -
  define evs where "evs =
      [Drafted ''Heat.'', Reviewed (low_effort_rejection 5 22000),
       Drafted ''Heat.'', Reviewed (low_effort_rejection 5 22000),
       Drafted ''Heat.'', Reviewed (low_effort_rejection 5 22000)]"
  have t: "target_chars (initial_state env0 3 ''Heat.'') = 22000"
    by (simp add: initial_state_def env0_def int_truediv_def)
  have c: "concat (replicate 3 [Drafted ''Heat.'', Reviewed (low_effort_rejection 5 22000)]) = evs"
    by (simp add: evs_def eval_nat_numeral)
  have len: "length ''Heat.'' = 5"
    by simp
  from ainvoke_low_effort [OF heat_not_blank heat_below_target, of service0 0]
  obtain sf where run: "ainvoke env0 service0 0 (initial_state env0 3 ''Heat.'') = (Inr sf, evs, 0)"
    unfolding t len c by (elim exE)
  have rej: "list_all (\<lambda>fb. \<not> approved fb) (reviews_of evs)"
    by (simp add: evs_def low_effort_not_approved)
  have no: "chunk_files files0 0 = None"
    by (simp add: files0_def)
  have l: "last (drafts_of evs) = ''Heat.''"
    by (simp add: evs_def)
  from revision_cap_reached [OF run rej, of files0 0] obtain sf' where
    a: "Inr sf = (Inr sf' :: py_error + BookState)" and b: "revision_count sf' = MAX_REVISIONS"
    and d: "expanded_chunk sf' = last (drafts_of evs)"
    and e: "chunk_files files0 0 = None \<longrightarrow>
            fst (process_chunk env0 service0 3 files0 0 0 ''Heat.'') = last (drafts_of evs)"
    by (elim exE conjE)
  from a have sf: "sf' = sf" by (rule sum.inject(2) [THEN iffD1, symmetric])
  from b have b': "revision_count sf = 3" unfolding sf MAX_REVISIONS_def .
  from d have d': "expanded_chunk sf = ''Heat.''" unfolding sf l .
  from e no have e': "fst (process_chunk env0 service0 3 files0 0 0 ''Heat.'') = ''Heat.''"
    unfolding l by (rule mp)
  have "\<exists>sf. ainvoke env0 service0 0 (initial_state env0 3 ''Heat.'') = (Inr sf, evs, 0) \<and>
     revision_count sf = 3 \<and> expanded_chunk sf = ''Heat.'' \<and>
     fst (process_chunk env0 service0 3 files0 0 0 ''Heat.'') = ''Heat.''"
    using run b' d' e' by (intro exI [of _ sf] conjI)
  then show ?thesis unfolding evs_def .
qed

section \<open>Bounded scheduler\<close>

lemma expand_unit_keeps_checkpoints:
  "chunk_files (fst (snd (expand_unit E service n_units fs n i chunk))) = chunk_files fs"
  by (simp add: expand_unit_def log_failure_def Let_def split: prod.splits sum.splits)

lemma process_chunk_skips:
  "chunk_files fs i = Some stored \<Longrightarrow>
   process_chunk E service n_units fs n i chunk = (stored, fs, n)"
  by (simp add: process_chunk_def)

lemma process_chunk_writes:
  assumes "process_chunk E service n_units fs n i chunk = (x, fs1, n1)"
  shows "chunk_files fs1 i = Some x" and "j \<noteq> i \<Longrightarrow> chunk_files fs1 j = chunk_files fs j"
proof -
  show "chunk_files fs1 i = Some x"
    using assms by (auto simp: process_chunk_def split: option.splits prod.splits)
  show "j \<noteq> i \<Longrightarrow> chunk_files fs1 j = chunk_files fs j"
    using assms expand_unit_keeps_checkpoints [of E service n_units fs n i chunk]
    by (auto simp: process_chunk_def split: option.splits prod.splits)
qed

lemma run_tasks_writes:
  "run_tasks E service n_units fs n i chunks = (results, fs1, n1) \<Longrightarrow>
   length results = length chunks \<and>
   (\<forall>j<length chunks. chunk_files fs1 (i + j) = Some (results ! j)) \<and>
   (\<forall>j<i. chunk_files fs1 j = chunk_files fs j)"
proof (induction chunks arbitrary: fs n i results fs1 n1)
  case Nil
  then show ?case by simp
next
  case (Cons chunk rest)
  obtain x fsa na where p: "process_chunk E service n_units fs n i chunk = (x, fsa, na)"
    by (cases "process_chunk E service n_units fs n i chunk")
  obtain rs fsb nb where t: "run_tasks E service n_units fsa na (Suc i) rest = (rs, fsb, nb)"
    by (cases "run_tasks E service n_units fsa na (Suc i) rest")
  from Cons.prems p t have res: "results = x # rs" "fs1 = fsb" "n1 = nb" by simp_all
  from Cons.IH [OF t] have ih: "length rs = length rest"
    "\<forall>j<length rest. chunk_files fsb (Suc i + j) = Some (rs ! j)"
    "\<forall>j<Suc i. chunk_files fsb j = chunk_files fsa j" by simp_all
  have own: "chunk_files fsb i = Some x"
    using ih(3) process_chunk_writes(1) [OF p] by simp
  have below: "\<forall>j<i. chunk_files fsb j = chunk_files fs j"
    using ih(3) process_chunk_writes(2) [OF p] by simp
  have each: "\<forall>j<length (chunk # rest). chunk_files fsb (i + j) = Some ((x # rs) ! j)"
  proof (intro allI impI)
    fix j assume "j < length (chunk # rest)"
    then show "chunk_files fsb (i + j) = Some ((x # rs) ! j)"
      using own ih(2) by (cases j) simp_all
  qed
  show ?case using res ih(1) each below by simp
qed

lemma run_tasks_all_stored:
  "length results = length chunks \<Longrightarrow>
   \<forall>j<length chunks. chunk_files fs (i + j) = Some (results ! j) \<Longrightarrow>
   run_tasks E service n_units fs n i chunks = (results, fs, n)"
proof (induction chunks arbitrary: i results)
  case Nil
  then show ?case by simp
next
  case (Cons chunk rest)
  from Cons.prems(1) obtain x rs where r: "results = x # rs" "length rs = length rest"
    by (cases results) simp_all
  from Cons.prems(2) r have h: "chunk_files fs i = Some x" by force
  have "\<forall>j<length rest. chunk_files fs (Suc i + j) = Some (rs ! j)"
  proof (intro allI impI)
    fix j assume "j < length rest"
    then have "Suc j < length (chunk # rest)" by simp
    from Cons.prems(2) [rule_format, OF this] r show "chunk_files fs (Suc i + j) = Some (rs ! j)"
      by simp
  qed
  from Cons.IH [OF r(2) this] have "run_tasks E service n_units fs n (Suc i) rest = (rs, fs, n)" .
  then show ?case using r h by (simp add: process_chunk_skips)
qed

text \<open>
  Claim C1. A unit whose checkpoint exists when \<open>process_chunk\<close> considers it is
  skipped: the stored text is the result, the number of service calls is unchanged and so
  are the files. Consequently, after a run of the scheduler over a list of units (from any
  files, with any service), a second run over the same list from the files the first run
  left, with any service and environment, makes no service call and returns the same
  results, leaving the files as they are.
\<close>

theorem checkpointed_units_are_skipped:
  "(chunk_files fs i = Some stored \<longrightarrow>
      process_chunk E service n_units fs n i chunk = (stored, fs, n)) \<and>
   (run_phase_2 E service fs n chunks = (results, fs1, n1) \<longrightarrow>
      run_phase_2 E2 service2 fs1 n2 chunks = (results, fs1, n2))"
proof (intro conjI impI)
  assume "chunk_files fs i = Some stored"
  then show "process_chunk E service n_units fs n i chunk = (stored, fs, n)"
    by (rule process_chunk_skips)
next
  assume "run_phase_2 E service fs n chunks = (results, fs1, n1)"
  then have "run_tasks E service (length chunks) fs n 0 chunks = (results, fs1, n1)"
    by (simp add: run_phase_2_def)
  from run_tasks_writes [OF this] have "length results = length chunks"
    "\<forall>j<length chunks. chunk_files fs1 (0 + j) = Some (results ! j)" by simp_all
  from run_tasks_all_stored [OF this]
  show "run_phase_2 E2 service2 fs1 n2 chunks = (results, fs1, n2)"
    by (simp add: run_phase_2_def)
qed

theorem checkpointed_units_are_skipped_witness:
  "process_chunk env0 service0 2 (files0\<lparr>chunk_files := [0 \<mapsto> ''Stored text.'']\<rparr>) 4 0 ''Heat.'' =
     (''Stored text.'', files0\<lparr>chunk_files := [0 \<mapsto> ''Stored text.'']\<rparr>, 4) \<and>
   run_phase_2 env0 (\<lambda>k. Response (Content (Some ''APPROVED'')))
     (fst (snd (run_phase_2 env0 service0 files0 0 [''Heat.'', ''Work.''])))
     7 [''Heat.'', ''Work.''] =
     (fst (run_phase_2 env0 service0 files0 0 [''Heat.'', ''Work.'']),
      fst (snd (run_phase_2 env0 service0 files0 0 [''Heat.'', ''Work.''])), 7)"
proof -
  let ?fs = "files0\<lparr>chunk_files := [0 \<mapsto> ''Stored text.'']\<rparr>"
  let ?run = "run_phase_2 env0 service0 files0 0 [''Heat.'', ''Work.'']"
  have st: "chunk_files ?fs 0 = Some ''Stored text.''"
    by (simp add: files0_def)
  have run: "?run = (fst ?run, fst (snd ?run), snd (snd ?run))"
    by simp
  from checkpointed_units_are_skipped
         [where fs = ?fs and i = 0 and stored = "''Stored text.''" and E = env0
            and service = service0 and n_units = 2 and n = 4 and chunk = "''Heat.''"] st
  have a: "process_chunk env0 service0 2 ?fs 4 0 ''Heat.'' = (''Stored text.'', ?fs, 4)"
    by (rule conjunct1 [THEN mp])
  from checkpointed_units_are_skipped
         [where fs = files0 and E = env0 and service = service0 and n = 0
            and chunks = "[''Heat.'', ''Work.'']" and results = "fst ?run"
            and ?fs1.0 = "fst (snd ?run)" and ?n1.0 = "snd (snd ?run)" and ?E2.0 = env0
            and ?service2.0 = "\<lambda>k. Response (Content (Some ''APPROVED''))" and ?n2.0 = 7] run
  have b: "run_phase_2 env0 (\<lambda>k. Response (Content (Some ''APPROVED''))) (fst (snd ?run)) 7
             [''Heat.'', ''Work.''] = (fst ?run, fst (snd ?run), 7)"
    by (rule conjunct2 [THEN mp])
  show ?thesis using a b by (rule conjI)
qed

end
